theory Spec2Isabelle
  imports Main "HOL-Library.Word"
begin

unbundle bit_operations_syntax

section \<open>Python values and exceptions\<close>

text \<open>
  Python integers are unbounded and are modelled as \<^typ>\<open>int\<close>; the operators
  \<^verbatim>\<open>&\<close>, \<^verbatim>\<open>|\<close>, \<^verbatim>\<open>^\<close>, \<^verbatim>\<open>~\<close>, \<^verbatim>\<open>>>\<close> and \<^verbatim>\<open><<\<close> are
  \<open>AND\<close>, \<open>OR\<close>, \<open>XOR\<close>, \<open>NOT\<close>, \<open>drop_bit\<close> and \<open>push_bit\<close> on \<^typ>\<open>int\<close>
  (two's complement with infinitely many sign bits, as in Python).
  Every exception the simulator can raise is a value of \<open>py_error\<close>; a method that may
  raise returns \<open>py_error + 'a\<close>.
\<close>

datatype py_error = IndexError | KeyError | TypeError | ValueError
  | ZeroDivisionError | AttributeError

definition bindE :: "'e + 'a \<Rightarrow> ('a \<Rightarrow> 'e + 'b) \<Rightarrow> 'e + 'b" where
  "bindE m f = (case m of Inl e \<Rightarrow> Inl e | Inr x \<Rightarrow> f x)"

text \<open>Python list indexing: a negative index counts from the end, anything else out of
  range raises IndexError.\<close>

definition py_index :: "'a list \<Rightarrow> int \<Rightarrow> py_error + 'a" where
  "py_index xs i =
     (if 0 \<le> i \<and> i < int (length xs) then Inr (xs ! nat i)
      else if i < 0 \<and> - int (length xs) \<le> i then Inr (xs ! nat (int (length xs) + i))
      else Inl IndexError)"

definition py_store :: "'a list \<Rightarrow> int \<Rightarrow> 'a \<Rightarrow> py_error + 'a list" where
  "py_store xs i v =
     (if 0 \<le> i \<and> i < int (length xs) then Inr (xs[nat i := v])
      else if i < 0 \<and> - int (length xs) \<le> i then Inr (xs[nat (int (length xs) + i) := v])
      else Inl IndexError)"

text \<open>The operand dictionary of a decoded instruction: a dict literal with distinct
  string keys, kept as an association list. \<^verbatim>\<open>operands['k']\<close> raises KeyError when the key
  is missing.\<close>

type_synonym operands = "(string \<times> int) list"

definition op_get :: "operands \<Rightarrow> string \<Rightarrow> py_error + int" where
  "op_get ops k = (case map_of ops k of None \<Rightarrow> Inl KeyError | Some v \<Rightarrow> Inr v)"

section \<open>Cache hierarchy (cache.py)\<close>

record CacheLine =
  valid :: bool
  tag :: "int option"
  dirty :: bool

definition CacheLine_init :: CacheLine where
  "CacheLine_init = \<lparr>valid = False, tag = None, dirty = False\<rparr>"

record BaseCache =
  size_c :: int
  block_size :: int
  mapping :: string
  num_blocks :: int
  lines :: "CacheLine list"
  accesses :: int
  hits :: int
  misses :: int
  write_backs :: int

text \<open>\<^verbatim>\<open>size // block_size\<close> raises ZeroDivisionError for a zero block size;
  \<^verbatim>\<open>range(n)\<close> is empty for \<open>n \<le> 0\<close>.\<close>

definition BaseCache_init :: "int \<Rightarrow> int \<Rightarrow> string \<Rightarrow> py_error + BaseCache" where
  "BaseCache_init sz bs mp =
     (if bs = 0 then Inl ZeroDivisionError
      else Inr \<lparr>size_c = sz, block_size = bs, mapping = mp,
                num_blocks = sz div bs,
                lines = replicate (nat (sz div bs)) CacheLine_init,
                accesses = 0, hits = 0, misses = 0, write_backs = 0\<rparr>)"

definition get_index_and_tag :: "BaseCache \<Rightarrow> int \<Rightarrow> py_error + (int \<times> int)" where
  "get_index_and_tag c address =
     (if block_size c = 0 then Inl ZeroDivisionError
      else let block_number = address div block_size c in
        if mapping c = ''direct'' then
          (if num_blocks c = 0 then Inl ZeroDivisionError
           else Inr (block_number mod num_blocks c, block_number))
        else Inr (0, block_number))"

text \<open>\<open>access\<close> returns the hit flag together with the updated cache level. The access
  counter is incremented before anything can raise; a raised exception aborts the run, so
  the partially updated level is not observable through the result.\<close>

definition access :: "BaseCache \<Rightarrow> int \<Rightarrow> bool \<Rightarrow> py_error + (bool \<times> BaseCache)" where
  "access c0 address is_write =
     (let c = c0\<lparr>accesses := accesses c0 + 1\<rparr> in
      bindE (get_index_and_tag c address) (\<lambda>(index, tg).
      bindE (py_index (lines c) index) (\<lambda>line.
        if valid line \<and> tag line = Some tg then
          (let c1 = c\<lparr>hits := hits c + 1\<rparr>;
               line1 = (if is_write then line\<lparr>dirty := True\<rparr> else line)
           in bindE (py_store (lines c1) index line1) (\<lambda>ls.
                Inr (True, c1\<lparr>lines := ls\<rparr>)))
        else
          (let c1 = c\<lparr>misses := misses c + 1\<rparr>;
               c2 = (if valid line \<and> dirty line
                     then c1\<lparr>write_backs := write_backs c1 + 1\<rparr> else c1);
               line1 = line\<lparr>valid := True, tag := Some tg, dirty := is_write\<rparr>
           in bindE (py_store (lines c2) index line1) (\<lambda>ls.
                Inr (False, c2\<lparr>lines := ls\<rparr>))))))"

definition reset_stats :: "BaseCache \<Rightarrow> BaseCache" where
  "reset_stats c = c\<lparr>accesses := 0, hits := 0, misses := 0, write_backs := 0\<rparr>"

text \<open>\<open>stats\<close> is a \<^verbatim>\<open>defaultdict(int)\<close>: a missing key reads as 0.\<close>

record CacheSimulator =
  L1I :: BaseCache
  L1D :: BaseCache
  L2 :: BaseCache
  stats :: "string \<rightharpoonup> int"

definition stats_get :: "(string \<rightharpoonup> int) \<Rightarrow> string \<Rightarrow> int" where
  "stats_get st k = (case st k of None \<Rightarrow> 0 | Some v \<Rightarrow> v)"

definition stats_incr :: "CacheSimulator \<Rightarrow> string \<Rightarrow> CacheSimulator" where
  "stats_incr cs k = cs\<lparr>stats := (stats cs)(k \<mapsto> stats_get (stats cs) k + 1)\<rparr>"

definition CacheSimulator_init ::
  "(int \<times> int \<times> string) \<Rightarrow> (int \<times> int \<times> string) \<Rightarrow> (int \<times> int \<times> string)
     \<Rightarrow> py_error + CacheSimulator" where
  "CacheSimulator_init l1i_conf l1d_conf l2_conf =
     (case l1i_conf of (s1, b1, m1) \<Rightarrow>
      case l1d_conf of (s2, b2, m2) \<Rightarrow>
      case l2_conf of (s3, b3, m3) \<Rightarrow>
        bindE (BaseCache_init s1 b1 m1) (\<lambda>c1.
        bindE (BaseCache_init s2 b2 m2) (\<lambda>c2.
        bindE (BaseCache_init s3 b3 m3) (\<lambda>c3.
          Inr \<lparr>L1I = c1, L1D = c2, L2 = c3, stats = Map.empty\<rparr>))))"

definition access_instruction :: "CacheSimulator \<Rightarrow> int \<Rightarrow> py_error + CacheSimulator" where
  "access_instruction cs address =
     bindE (access (L1I cs) address False) (\<lambda>(hit1, l1).
       let cs1 = cs\<lparr>L1I := l1\<rparr> in
       if \<not> hit1 then
         bindE (access (L2 cs1) address False) (\<lambda>(hit2, l2).
           let cs2 = cs1\<lparr>L2 := l2\<rparr>;
               cs3 = (if \<not> hit2 then stats_incr cs2 ''L2_miss''
                      else stats_incr cs2 ''L2_hit'')
           in Inr (stats_incr cs3 ''L1I_miss''))
       else Inr (stats_incr cs1 ''L1I_hit''))"

definition access_data :: "CacheSimulator \<Rightarrow> int \<Rightarrow> bool \<Rightarrow> py_error + CacheSimulator" where
  "access_data cs address is_write =
     bindE (access (L1D cs) address is_write) (\<lambda>(hit1, l1).
       let cs1 = cs\<lparr>L1D := l1\<rparr> in
       if \<not> hit1 then
         bindE (access (L2 cs1) address is_write) (\<lambda>(hit2, l2).
           let cs2 = cs1\<lparr>L2 := l2\<rparr>;
               cs3 = (if \<not> hit2 then stats_incr cs2 ''L2_miss''
                      else stats_incr cs2 ''L2_hit'')
           in Inr (stats_incr cs3 ''L1D_miss''))
       else Inr (stats_incr cs1 ''L1D_hit''))"

definition reset :: "CacheSimulator \<Rightarrow> CacheSimulator" where
  "reset cs = cs\<lparr>stats := Map.empty,
                 L1I := reset_stats (L1I cs),
                 L1D := reset_stats (L1D cs),
                 L2 := reset_stats (L2 cs)\<rparr>"

section \<open>ARM decoder (ARM_decoder.py)\<close>

text \<open>The decoder uses only shifts, masks and comparisons, none of which can raise; a
  path that leaves the \<^verbatim>\<open>if\<close>/\<^verbatim>\<open>elif\<close> cascade without returning reaches the final
  \<^verbatim>\<open>return "UNKNOWN", {}\<close>.\<close>

definition decode_instruction :: "int \<Rightarrow> int \<Rightarrow> string \<times> operands" where
  "decode_instruction instruction address =
     (let cond = drop_bit 28 instruction AND 0xF;
          opcode = drop_bit 21 instruction AND 0xF;
          i_flag = drop_bit 25 instruction AND 0x1;
          instr_type = drop_bit 26 instruction AND 0x3
      in
      if instr_type = 0 \<and> instruction AND 0x0FC000F0 = 0x00000090 then
        (let rd = drop_bit 16 instruction AND 0xF;
             rm = instruction AND 0xF;
             rs = drop_bit 8 instruction AND 0xF
         in (''MUL'', [(''rd'', rd), (''rm'', rm), (''rs'', rs)]))
      else if instruction AND 0x0FFFFFF0 = 0x012FFF10 then
        (let rm = instruction AND 0xF in (''BX'', [(''rm'', rm)]))
      else if instr_type = 0 then
        (let rn = drop_bit 16 instruction AND 0xF;
             rd = drop_bit 12 instruction AND 0xF;
             operand2 = instruction AND 0xFFF
         in
         if i_flag \<noteq> 0 then
           (let imm = operand2 in
            if opcode = 13 then (''MOV_IMM'', [(''rd'', rd), (''immediate'', imm)])
            else if opcode = 4 then (''ADD_IMM'', [(''rd'', rd), (''rn'', rn), (''immediate'', imm)])
            else if opcode = 2 then (''SUB_IMM'', [(''rd'', rd), (''rn'', rn), (''immediate'', imm)])
            else if opcode = 10 then (''CMP_IMM'', [(''rn'', rn), (''immediate'', imm)])
            else if opcode = 0 then (''AND_IMM'', [(''rd'', rd), (''rn'', rn), (''immediate'', imm)])
            else if opcode = 1 then (''EOR_IMM'', [(''rd'', rd), (''rn'', rn), (''immediate'', imm)])
            else if opcode = 12 then (''ORR_IMM'', [(''rd'', rd), (''rn'', rn), (''immediate'', imm)])
            else if opcode = 14 then (''BIC_IMM'', [(''rd'', rd), (''rn'', rn), (''immediate'', imm)])
            else if opcode = 15 then (''MVN_IMM'', [(''rd'', rd), (''immediate'', imm)])
            else if opcode = 8 then (''TST_IMM'', [(''rn'', rn), (''immediate'', imm)])
            else if opcode = 9 then (''TEQ_IMM'', [(''rn'', rn), (''immediate'', imm)])
            else (''UNKNOWN'', []))
         else
           (let rm = instruction AND 0xF in
            if opcode = 13 then (''MOV'', [(''rd'', rd), (''rm'', rm)])
            else if opcode = 4 then (''ADD'', [(''rd'', rd), (''rn'', rn), (''rm'', rm)])
            else if opcode = 2 then (''SUB'', [(''rd'', rd), (''rn'', rn), (''rm'', rm)])
            else if opcode = 10 then (''CMP'', [(''rn'', rn), (''rm'', rm)])
            else if opcode = 0 then (''AND'', [(''rd'', rd), (''rn'', rn), (''rm'', rm)])
            else if opcode = 1 then (''EOR'', [(''rd'', rd), (''rn'', rn), (''rm'', rm)])
            else if opcode = 12 then (''ORR'', [(''rd'', rd), (''rn'', rn), (''rm'', rm)])
            else if opcode = 14 then (''BIC'', [(''rd'', rd), (''rn'', rn), (''rm'', rm)])
            else if opcode = 15 then (''MVN'', [(''rd'', rd), (''rm'', rm)])
            else if opcode = 8 then (''TST'', [(''rn'', rn), (''rm'', rm)])
            else if opcode = 9 then (''TEQ'', [(''rn'', rn), (''rm'', rm)])
            else (''UNKNOWN'', [])))
      else if instr_type = 1 then
        (let l_flag = drop_bit 20 instruction AND 0x1;
             rn = drop_bit 16 instruction AND 0xF;
             rd = drop_bit 12 instruction AND 0xF;
             offset = instruction AND 0xFFF
         in
         if l_flag \<noteq> 0 then (''LDR'', [(''rd'', rd), (''rn'', rn), (''offset'', offset)])
         else (''STR'', [(''rd'', rd), (''rn'', rn), (''offset'', offset)]))
      else if instr_type = 2 then
        (let link = drop_bit 24 instruction AND 0x1;
             offset0 = instruction AND 0xFFFFFF;
             offset = (if offset0 AND 0x800000 \<noteq> 0 then offset0 - 0x1000000 else offset0)
         in
         if link \<noteq> 0 then (''BL'', [(''offset'', offset)])
         else (''B'', [(''offset'', offset)]))
      else (''UNKNOWN'', []))"

section \<open>Thumb decoder (thumb_decoder.py)\<close>

text \<open>The mnemonic tables are Python lists indexed by a bit field, so each lookup is a
  \<open>py_index\<close> that can raise IndexError. The inner cascade of formats 6 to 8 has no
  \<^verbatim>\<open>else\<close>: leaving it would make the method return \<^verbatim>\<open>None\<close>, which the
  caller's tuple unpacking rejects with TypeError.\<close>

definition decode_thumb_instruction :: "int \<Rightarrow> int \<Rightarrow> py_error + (string \<times> operands)" where
  "decode_thumb_instruction instruction address =
     (let bits_15_13 = drop_bit 13 instruction AND 7;
          bits_15_11 = drop_bit 11 instruction AND 31;
          bits_15_10 = drop_bit 10 instruction AND 63
      in
      if bits_15_13 = 1 then
        (let op = drop_bit 11 instruction AND 0x3;
             rd = drop_bit 8 instruction AND 0x7;
             imm8 = instruction AND 0xFF;
             op_types = [''T_MOV_IMM'', ''T_CMP_IMM'', ''T_ADD_IMM'', ''T_SUB_IMM'']
         in bindE (py_index op_types op) (\<lambda>m.
              Inr (m, [(''rd'', rd), (''immediate'', imm8)])))
      else if bits_15_11 = 3 then
        (let is_imm = drop_bit 10 instruction AND 0x1;
             op = drop_bit 9 instruction AND 0x1;
             rn = drop_bit 6 instruction AND 0x7;
             rs = drop_bit 3 instruction AND 0x7;
             rd = instruction AND 0x7
         in
         if is_imm \<noteq> 0 then
           Inr ((if op \<noteq> 0 then ''T_SUB_IMM'' else ''T_ADD_IMM''),
                [(''rd'', rd), (''rs'', rs), (''immediate'', rn)])
         else
           Inr ((if op \<noteq> 0 then ''T_SUB'' else ''T_ADD''),
                [(''rd'', rd), (''rs'', rs), (''rn'', rn)]))
      else if bits_15_13 = 0 then
        (let shift_type = drop_bit 11 instruction AND 0x3;
             offset = drop_bit 6 instruction AND 0x1F;
             rs = drop_bit 3 instruction AND 0x7;
             rd = instruction AND 0x7;
             shift_ops = [''LSL'', ''LSR'', ''ASR'']
         in bindE (py_index shift_ops shift_type) (\<lambda>nm.
              Inr (''T_'' @ nm, [(''rd'', rd), (''rs'', rs), (''offset'', offset)])))
      else if bits_15_10 = 16 then
        (let alu_op = drop_bit 6 instruction AND 0xF;
             rs = drop_bit 3 instruction AND 0x7;
             rd = instruction AND 0x7;
             alu_ops = [''AND'', ''EOR'', ''LSL'', ''LSR'', ''ASR'', ''ADC'', ''SBC'', ''ROR'',
                        ''TST'', ''NEG'', ''CMP'', ''CMN'', ''ORR'', ''MUL'', ''BIC'', ''MVN'']
         in bindE (py_index alu_ops alu_op) (\<lambda>nm.
              Inr (''T_'' @ nm, [(''rd'', rd), (''rs'', rs)])))
      else if bits_15_10 = 17 then
        (let op = drop_bit 8 instruction AND 0x3;
             h1 = drop_bit 7 instruction AND 0x1;
             h2 = drop_bit 6 instruction AND 0x1;
             rs = push_bit 3 h2 OR (drop_bit 3 instruction AND 0x7);
             rd = push_bit 3 h1 OR (instruction AND 0x7);
             op_types = [''T_ADD'', ''T_CMP'', ''T_MOV_HI'', ''T_BX'']
         in bindE (py_index op_types op) (\<lambda>m.
              Inr (m, [(''rd'', rd), (''rs'', rs)])))
      else if bits_15_13 = 2 then
        (let bits_12_11 = drop_bit 11 instruction AND 3 in
         if bits_12_11 = 0 then
           (let rm = drop_bit 6 instruction AND 0x7;
                rb = drop_bit 3 instruction AND 0x7;
                rd = instruction AND 0x7
            in Inr (''T_STR_REG'', [(''rd'', rd), (''rb'', rb), (''rm'', rm)]))
         else if bits_12_11 = 1 then
           (let rm = drop_bit 6 instruction AND 0x7;
                rb = drop_bit 3 instruction AND 0x7;
                rd = instruction AND 0x7
            in Inr (''T_STRH_REG'', [(''rd'', rd), (''rb'', rb), (''rm'', rm)]))
         else if bits_12_11 = 2 then
           (let rm = drop_bit 6 instruction AND 0x7;
                rb = drop_bit 3 instruction AND 0x7;
                rd = instruction AND 0x7
            in Inr (''T_STRB_REG'', [(''rd'', rd), (''rb'', rb), (''rm'', rm)]))
         else if bits_12_11 = 3 then
           (let rd = drop_bit 8 instruction AND 0x7;
                offset = instruction AND 0xFF
            in Inr (''T_LDR_PC'', [(''rd'', rd), (''offset'', offset)]))
         else Inl TypeError)
      else if bits_15_13 = 3 then
        (let l_bit = drop_bit 11 instruction AND 0x1;
             offset = drop_bit 6 instruction AND 0x1F;
             rb = drop_bit 3 instruction AND 0x7;
             rd = instruction AND 0x7
         in
         if l_bit \<noteq> 0 then Inr (''T_LDR'', [(''rd'', rd), (''rb'', rb), (''offset'', offset)])
         else Inr (''T_STR'', [(''rd'', rd), (''rb'', rb), (''offset'', offset)]))
      else if drop_bit 12 instruction = 13 \<and> drop_bit 8 instruction AND 0xF \<noteq> 0xF then
        (let condition = drop_bit 8 instruction AND 0xF;
             offset0 = instruction AND 0xFF;
             offset = (if offset0 AND 0x80 \<noteq> 0 then offset0 - 0x100 else offset0)
         in Inr (''T_BCC'', [(''condition'', condition), (''offset'', offset * 2)]))
      else if drop_bit 11 instruction = 28 then
        (let offset0 = instruction AND 0x7FF;
             offset = (if offset0 AND 0x400 \<noteq> 0 then offset0 - 0x800 else offset0)
         in Inr (''T_B'', [(''offset'', offset * 2)]))
      else if instruction AND 0xFF00 = 0xDF00 then
        (let imm8 = instruction AND 0xFF in Inr (''T_SWI'', [(''immediate'', imm8)]))
      else Inr (''T_UNKNOWN'', [(''raw'', instruction)]))"

section \<open>Processor state and execution engine (enhanced_executor.py)\<close>

text \<open>The executor object. \<open>decoder_mode\<close> is the \<^verbatim>\<open>mode\<close> attribute of the decoder
  object it owns. \<open>arm_count\<close> and \<open>thumb_base\<close> are attributes that exist only after a
  program has been loaded (\<open>None\<close> before). The trace written with \<^verbatim>\<open>print\<close> is not part
  of the state, except for the two stop messages of \<open>execute_program\<close>, which are returned
  by it.\<close>

record EnhancedARMExecutor =
  cache :: "CacheSimulator option"
  registers :: "int list"
  cpsr :: int
  memory :: "int \<rightharpoonup> int"
  program :: "(int \<times> string) list"
  mode :: string
  decoder_mode :: string
  running :: bool
  instruction_count :: int
  max_instructions :: int
  arm_count :: "int option"
  thumb_base :: "int option"

definition SP :: int where "SP = 13"
definition LR :: int where "LR = 14"
definition PC :: int where "PC = 15"

definition EnhancedARMExecutor_init :: "CacheSimulator option \<Rightarrow> EnhancedARMExecutor" where
  "EnhancedARMExecutor_init c =
     \<lparr>cache = c,
      registers = (replicate 16 0)[nat SP := 0x1000],
      cpsr = 0,
      memory = Map.empty,
      program = [],
      mode = ''ARM'',
      decoder_mode = ''ARM'',
      running = True,
      instruction_count = 0,
      max_instructions = 1000,
      arm_count = None,
      thumb_base = None\<rparr>"

definition reg_get :: "EnhancedARMExecutor \<Rightarrow> int \<Rightarrow> py_error + int" where
  "reg_get s i = py_index (registers s) i"

definition reg_set :: "EnhancedARMExecutor \<Rightarrow> int \<Rightarrow> int \<Rightarrow> py_error + EnhancedARMExecutor" where
  "reg_set s i v = bindE (py_store (registers s) i v) (\<lambda>rs. Inr (s\<lparr>registers := rs\<rparr>))"

definition flag_positions :: "string \<rightharpoonup> nat" where
  "flag_positions = map_of [(''N'', 31), (''Z'', 30), (''C'', 29), (''V'', 28)]"

definition set_cpsr_flag :: "EnhancedARMExecutor \<Rightarrow> string \<Rightarrow> bool \<Rightarrow> EnhancedARMExecutor" where
  "set_cpsr_flag s flag val =
     (case flag_positions flag of
        Some pos \<Rightarrow>
          (if val then s\<lparr>cpsr := cpsr s OR push_bit pos 1\<rparr>
           else s\<lparr>cpsr := cpsr s AND NOT (push_bit pos 1)\<rparr>)
      | None \<Rightarrow> s)"

definition get_cpsr_flag :: "EnhancedARMExecutor \<Rightarrow> string \<Rightarrow> bool" where
  "get_cpsr_flag s flag =
     (case flag_positions flag of
        Some pos \<Rightarrow> cpsr s AND push_bit pos 1 \<noteq> 0
      | None \<Rightarrow> False)"

definition update_flags :: "EnhancedARMExecutor \<Rightarrow> int \<Rightarrow> EnhancedARMExecutor" where
  "update_flags s result =
     (let s1 = set_cpsr_flag s ''Z'' (result = 0)
      in set_cpsr_flag s1 ''N'' (result < 0))"

definition switch_mode :: "EnhancedARMExecutor \<Rightarrow> string \<Rightarrow> py_error + EnhancedARMExecutor" where
  "switch_mode s new_mode =
     (if new_mode \<in> set [''ARM'', ''Thumb'']
      then Inr (s\<lparr>mode := new_mode, decoder_mode := new_mode\<rparr>)
      else Inl ValueError)"

definition memory_get :: "EnhancedARMExecutor \<Rightarrow> int \<Rightarrow> int" where
  "memory_get s a = (case memory s a of None \<Rightarrow> 0 | Some b \<Rightarrow> b)"

definition read_memory_word :: "EnhancedARMExecutor \<Rightarrow> int \<Rightarrow> int" where
  "read_memory_word s address =
     fold (\<lambda>i word.
             let byte_addr = address + int i;
                 byte_val = memory_get s byte_addr
             in word OR push_bit (i * 8) byte_val)
          [0, 1, 2, 3] 0"

definition write_memory_word :: "EnhancedARMExecutor \<Rightarrow> int \<Rightarrow> int \<Rightarrow> EnhancedARMExecutor" where
  "write_memory_word s address val =
     fold (\<lambda>i s'.
             let byte_addr = address + int i;
                 byte_val = drop_bit (i * 8) val AND 0xFF
             in s'\<lparr>memory := (memory s')(byte_addr \<mapsto> byte_val)\<rparr>)
          [0, 1, 2, 3] s"

definition read_memory_halfword :: "EnhancedARMExecutor \<Rightarrow> int \<Rightarrow> int" where
  "read_memory_halfword s address =
     fold (\<lambda>i halfword.
             let byte_addr = address + int i;
                 byte_val = memory_get s byte_addr
             in halfword OR push_bit (i * 8) byte_val)
          [0, 1] 0"

definition write_memory_halfword :: "EnhancedARMExecutor \<Rightarrow> int \<Rightarrow> int \<Rightarrow> EnhancedARMExecutor" where
  "write_memory_halfword s address val =
     fold (\<lambda>i s'.
             let byte_addr = address + int i;
                 byte_val = drop_bit (i * 8) val AND 0xFF
             in s'\<lparr>memory := (memory s')(byte_addr \<mapsto> byte_val)\<rparr>)
          [0, 1] s"

definition read_memory_byte :: "EnhancedARMExecutor \<Rightarrow> int \<Rightarrow> int" where
  "read_memory_byte s address = memory_get s address"

definition write_memory_byte :: "EnhancedARMExecutor \<Rightarrow> int \<Rightarrow> int \<Rightarrow> EnhancedARMExecutor" where
  "write_memory_byte s address val = s\<lparr>memory := (memory s)(address \<mapsto> val AND 0xFF)\<rparr>"

text \<open>The loader, from the parsed list of (value, mode tag) pairs on: reading and
  splitting the file is outside the model.\<close>

definition load_program :: "EnhancedARMExecutor \<Rightarrow> (int \<times> string) list \<Rightarrow> py_error + EnhancedARMExecutor" where
  "load_program s prog =
     (if prog = [] then Inl ValueError
      else let ac = int (length (filter (\<lambda>(_, m). m = ''ARM'') prog))
           in Inr (s\<lparr>program := prog, arm_count := Some ac, thumb_base := Some (ac * 4)\<rparr>))"

subsection \<open>ARM handlers\<close>

definition execute_arm_mov :: "EnhancedARMExecutor \<Rightarrow> operands \<Rightarrow> py_error + EnhancedARMExecutor" where
  "execute_arm_mov s operands =
     bindE (op_get operands ''rd'') (\<lambda>rd.
     bindE (op_get operands ''rm'') (\<lambda>rm.
     bindE (reg_get s rm) (\<lambda>v. reg_set s rd v)))"

definition execute_arm_mov_imm :: "EnhancedARMExecutor \<Rightarrow> operands \<Rightarrow> py_error + EnhancedARMExecutor" where
  "execute_arm_mov_imm s operands =
     bindE (op_get operands ''rd'') (\<lambda>rd.
     bindE (op_get operands ''immediate'') (\<lambda>immediate.
     reg_set s rd immediate))"

definition execute_arm_add :: "EnhancedARMExecutor \<Rightarrow> operands \<Rightarrow> py_error + EnhancedARMExecutor" where
  "execute_arm_add s operands =
     bindE (op_get operands ''rd'') (\<lambda>rd.
     bindE (op_get operands ''rn'') (\<lambda>rn.
     bindE (op_get operands ''rm'') (\<lambda>rm.
     bindE (reg_get s rn) (\<lambda>a.
     bindE (reg_get s rm) (\<lambda>b.
       let result = a + b in
       reg_set s rd (result AND 0xFFFFFFFF))))))"

definition execute_arm_add_imm :: "EnhancedARMExecutor \<Rightarrow> operands \<Rightarrow> py_error + EnhancedARMExecutor" where
  "execute_arm_add_imm s operands =
     bindE (op_get operands ''rd'') (\<lambda>rd.
     bindE (op_get operands ''rn'') (\<lambda>rn.
     bindE (op_get operands ''immediate'') (\<lambda>immediate.
     bindE (reg_get s rn) (\<lambda>a.
       let result = a + immediate in
       reg_set s rd (result AND 0xFFFFFFFF)))))"

definition execute_arm_sub :: "EnhancedARMExecutor \<Rightarrow> operands \<Rightarrow> py_error + EnhancedARMExecutor" where
  "execute_arm_sub s operands =
     bindE (op_get operands ''rd'') (\<lambda>rd.
     bindE (op_get operands ''rn'') (\<lambda>rn.
     bindE (op_get operands ''rm'') (\<lambda>rm.
     bindE (reg_get s rn) (\<lambda>a.
     bindE (reg_get s rm) (\<lambda>b.
       let result = a - b in
       reg_set s rd (result AND 0xFFFFFFFF))))))"

definition execute_arm_sub_imm :: "EnhancedARMExecutor \<Rightarrow> operands \<Rightarrow> py_error + EnhancedARMExecutor" where
  "execute_arm_sub_imm s operands =
     bindE (op_get operands ''rd'') (\<lambda>rd.
     bindE (op_get operands ''rn'') (\<lambda>rn.
     bindE (op_get operands ''immediate'') (\<lambda>immediate.
     bindE (reg_get s rn) (\<lambda>a.
       let result = a - immediate in
       reg_set s rd (result AND 0xFFFFFFFF)))))"

definition execute_arm_mul :: "EnhancedARMExecutor \<Rightarrow> operands \<Rightarrow> py_error + EnhancedARMExecutor" where
  "execute_arm_mul s operands =
     bindE (op_get operands ''rd'') (\<lambda>rd.
     bindE (op_get operands ''rm'') (\<lambda>rm.
     bindE (op_get operands ''rs'') (\<lambda>rs.
     bindE (reg_get s rm) (\<lambda>a.
     bindE (reg_get s rs) (\<lambda>b.
       let result = a * b in
       reg_set s rd (result AND 0xFFFFFFFF))))))"

definition execute_arm_and :: "EnhancedARMExecutor \<Rightarrow> operands \<Rightarrow> py_error + EnhancedARMExecutor" where
  "execute_arm_and s operands =
     bindE (op_get operands ''rd'') (\<lambda>rd.
     bindE (op_get operands ''rn'') (\<lambda>rn.
     bindE (op_get operands ''rm'') (\<lambda>rm.
     bindE (reg_get s rn) (\<lambda>a.
     bindE (reg_get s rm) (\<lambda>b.
       let result = a AND b in
       reg_set s rd (result AND 0xFFFFFFFF))))))"

definition execute_arm_orr :: "EnhancedARMExecutor \<Rightarrow> operands \<Rightarrow> py_error + EnhancedARMExecutor" where
  "execute_arm_orr s operands =
     bindE (op_get operands ''rd'') (\<lambda>rd.
     bindE (op_get operands ''rn'') (\<lambda>rn.
     bindE (op_get operands ''rm'') (\<lambda>rm.
     bindE (reg_get s rn) (\<lambda>a.
     bindE (reg_get s rm) (\<lambda>b.
       let result = a OR b in
       reg_set s rd (result AND 0xFFFFFFFF))))))"

definition execute_arm_cmp :: "EnhancedARMExecutor \<Rightarrow> operands \<Rightarrow> py_error + EnhancedARMExecutor" where
  "execute_arm_cmp s operands =
     bindE (op_get operands ''rn'') (\<lambda>rn.
     bindE (op_get operands ''rm'') (\<lambda>rm.
     bindE (reg_get s rn) (\<lambda>a.
     bindE (reg_get s rm) (\<lambda>b.
       let result = a - b in
       Inr (update_flags s result)))))"

definition execute_arm_cmp_imm :: "EnhancedARMExecutor \<Rightarrow> operands \<Rightarrow> py_error + EnhancedARMExecutor" where
  "execute_arm_cmp_imm s operands =
     bindE (op_get operands ''rn'') (\<lambda>rn.
     bindE (op_get operands ''immediate'') (\<lambda>immediate.
     bindE (reg_get s rn) (\<lambda>a.
       let result = a - immediate in
       Inr (update_flags s result))))"

text \<open>The instruction-fetch and data probes of the cache made by the two ARM
  load/store handlers.\<close>

definition probe_caches :: "EnhancedARMExecutor \<Rightarrow> int \<Rightarrow> bool \<Rightarrow> py_error + EnhancedARMExecutor" where
  "probe_caches s address is_write =
     (case cache s of
        None \<Rightarrow> Inr s
      | Some c \<Rightarrow>
          bindE (reg_get s PC) (\<lambda>pc.
          bindE (access_instruction c pc) (\<lambda>c1.
          bindE (access_data c1 address is_write) (\<lambda>c2.
            Inr (s\<lparr>cache := Some c2\<rparr>)))))"

definition execute_arm_str :: "EnhancedARMExecutor \<Rightarrow> operands \<Rightarrow> py_error + EnhancedARMExecutor" where
  "execute_arm_str s operands =
     bindE (op_get operands ''rd'') (\<lambda>rd.
     bindE (op_get operands ''rn'') (\<lambda>rn.
     bindE (op_get operands ''offset'') (\<lambda>offset.
     bindE (reg_get s rn) (\<lambda>base.
       let address = base + offset in
       bindE (reg_get s rd) (\<lambda>val.
       bindE (probe_caches s address True) (\<lambda>s1.
         Inr (write_memory_word s1 address val)))))))"

definition execute_arm_branch :: "EnhancedARMExecutor \<Rightarrow> operands \<Rightarrow> py_error + EnhancedARMExecutor" where
  "execute_arm_branch s operands =
     bindE (op_get operands ''offset'') (\<lambda>offset.
       let offset1 = (if offset AND 0x800000 \<noteq> 0 then offset OR 0xFF000000 else offset);
           branch_offset = push_bit 2 offset1
       in bindE (reg_get s PC) (\<lambda>old_pc.
            reg_set s PC ((old_pc + 8 + branch_offset) AND 0xFFFFFFFF)))"

definition execute_arm_branch_link :: "EnhancedARMExecutor \<Rightarrow> operands \<Rightarrow> py_error + EnhancedARMExecutor" where
  "execute_arm_branch_link s operands =
     bindE (op_get operands ''offset'') (\<lambda>offset.
     bindE (reg_get s PC) (\<lambda>pc.
     bindE (reg_set s LR (pc + 4)) (\<lambda>s1.
       let offset1 = (if offset AND 0x800000 \<noteq> 0 then offset OR 0xFF000000 else offset);
           branch_offset = push_bit 2 offset1
       in bindE (reg_get s1 PC) (\<lambda>old_pc.
            reg_set s1 PC ((old_pc + 8 + branch_offset) AND 0xFFFFFFFF)))))"

definition execute_arm_bx :: "EnhancedARMExecutor \<Rightarrow> operands \<Rightarrow> py_error + EnhancedARMExecutor" where
  "execute_arm_bx s operands =
     bindE (op_get operands ''rm'') (\<lambda>rm.
     bindE (reg_get s rm) (\<lambda>target.
       if target AND 1 \<noteq> 0 then
         bindE (switch_mode s ''Thumb'') (\<lambda>s1. reg_set s1 PC (target AND 0xFFFFFFFE))
       else
         bindE (switch_mode s ''ARM'') (\<lambda>s1. reg_set s1 PC (target AND 0xFFFFFFFC))))"

definition execute_arm_eor :: "EnhancedARMExecutor \<Rightarrow> operands \<Rightarrow> py_error + EnhancedARMExecutor" where
  "execute_arm_eor s operands =
     bindE (op_get operands ''rd'') (\<lambda>rd.
     bindE (op_get operands ''rn'') (\<lambda>rn.
     bindE (op_get operands ''rm'') (\<lambda>rm.
     bindE (reg_get s rn) (\<lambda>a.
     bindE (reg_get s rm) (\<lambda>b.
       let result = a XOR b in
       reg_set s rd (result AND 0xFFFFFFFF))))))"

definition execute_arm_eor_imm :: "EnhancedARMExecutor \<Rightarrow> operands \<Rightarrow> py_error + EnhancedARMExecutor" where
  "execute_arm_eor_imm s operands =
     bindE (op_get operands ''rd'') (\<lambda>rd.
     bindE (op_get operands ''rn'') (\<lambda>rn.
     bindE (op_get operands ''immediate'') (\<lambda>immediate.
     bindE (reg_get s rn) (\<lambda>a.
       let result = a XOR immediate in
       reg_set s rd (result AND 0xFFFFFFFF)))))"

definition execute_arm_bic :: "EnhancedARMExecutor \<Rightarrow> operands \<Rightarrow> py_error + EnhancedARMExecutor" where
  "execute_arm_bic s operands =
     bindE (op_get operands ''rd'') (\<lambda>rd.
     bindE (op_get operands ''rn'') (\<lambda>rn.
     bindE (op_get operands ''rm'') (\<lambda>rm.
     bindE (reg_get s rn) (\<lambda>a.
     bindE (reg_get s rm) (\<lambda>b.
       let result = a AND NOT b in
       reg_set s rd (result AND 0xFFFFFFFF))))))"

definition execute_arm_mvn :: "EnhancedARMExecutor \<Rightarrow> operands \<Rightarrow> py_error + EnhancedARMExecutor" where
  "execute_arm_mvn s operands =
     bindE (op_get operands ''rd'') (\<lambda>rd.
     bindE (op_get operands ''rm'') (\<lambda>rm.
     bindE (reg_get s rm) (\<lambda>a.
       let result = NOT a in
       reg_set s rd (result AND 0xFFFFFFFF))))"

definition execute_arm_tst :: "EnhancedARMExecutor \<Rightarrow> operands \<Rightarrow> py_error + EnhancedARMExecutor" where
  "execute_arm_tst s operands =
     bindE (op_get operands ''rn'') (\<lambda>rn.
     bindE (op_get operands ''rm'') (\<lambda>rm.
     bindE (reg_get s rn) (\<lambda>a.
     bindE (reg_get s rm) (\<lambda>b.
       let result = a AND b in
       Inr (update_flags s result)))))"

definition execute_arm_teq :: "EnhancedARMExecutor \<Rightarrow> operands \<Rightarrow> py_error + EnhancedARMExecutor" where
  "execute_arm_teq s operands =
     bindE (op_get operands ''rn'') (\<lambda>rn.
     bindE (op_get operands ''rm'') (\<lambda>rm.
     bindE (reg_get s rn) (\<lambda>a.
     bindE (reg_get s rm) (\<lambda>b.
       let result = a XOR b in
       Inr (update_flags s result)))))"

definition execute_arm_and_imm :: "EnhancedARMExecutor \<Rightarrow> operands \<Rightarrow> py_error + EnhancedARMExecutor" where
  "execute_arm_and_imm s operands =
     bindE (op_get operands ''rd'') (\<lambda>rd.
     bindE (op_get operands ''rn'') (\<lambda>rn.
     bindE (op_get operands ''immediate'') (\<lambda>immediate.
     bindE (reg_get s rn) (\<lambda>a.
       let result = a AND immediate in
       reg_set s rd (result AND 0xFFFFFFFF)))))"

definition execute_arm_orr_imm :: "EnhancedARMExecutor \<Rightarrow> operands \<Rightarrow> py_error + EnhancedARMExecutor" where
  "execute_arm_orr_imm s operands =
     bindE (op_get operands ''rd'') (\<lambda>rd.
     bindE (op_get operands ''rn'') (\<lambda>rn.
     bindE (op_get operands ''immediate'') (\<lambda>immediate.
     bindE (reg_get s rn) (\<lambda>a.
       let result = a OR immediate in
       reg_set s rd (result AND 0xFFFFFFFF)))))"

definition execute_arm_bic_imm :: "EnhancedARMExecutor \<Rightarrow> operands \<Rightarrow> py_error + EnhancedARMExecutor" where
  "execute_arm_bic_imm s operands =
     bindE (op_get operands ''rd'') (\<lambda>rd.
     bindE (op_get operands ''rn'') (\<lambda>rn.
     bindE (op_get operands ''immediate'') (\<lambda>immediate.
     bindE (reg_get s rn) (\<lambda>a.
       let result = a AND NOT immediate in
       reg_set s rd (result AND 0xFFFFFFFF)))))"

definition execute_arm_mvn_imm :: "EnhancedARMExecutor \<Rightarrow> operands \<Rightarrow> py_error + EnhancedARMExecutor" where
  "execute_arm_mvn_imm s operands =
     bindE (op_get operands ''rd'') (\<lambda>rd.
     bindE (op_get operands ''immediate'') (\<lambda>immediate.
     let result = NOT immediate in
     reg_set s rd (result AND 0xFFFFFFFF)))"

definition execute_arm_tst_imm :: "EnhancedARMExecutor \<Rightarrow> operands \<Rightarrow> py_error + EnhancedARMExecutor" where
  "execute_arm_tst_imm s operands =
     bindE (op_get operands ''rn'') (\<lambda>rn.
     bindE (op_get operands ''immediate'') (\<lambda>immediate.
     bindE (reg_get s rn) (\<lambda>a.
       let result = a AND immediate in
       Inr (update_flags s result))))"

definition execute_arm_teq_imm :: "EnhancedARMExecutor \<Rightarrow> operands \<Rightarrow> py_error + EnhancedARMExecutor" where
  "execute_arm_teq_imm s operands =
     bindE (op_get operands ''rn'') (\<lambda>rn.
     bindE (op_get operands ''immediate'') (\<lambda>immediate.
     bindE (reg_get s rn) (\<lambda>a.
       let result = a XOR immediate in
       Inr (update_flags s result))))"

definition execute_arm_ldr :: "EnhancedARMExecutor \<Rightarrow> operands \<Rightarrow> py_error + EnhancedARMExecutor" where
  "execute_arm_ldr s operands =
     bindE (op_get operands ''rd'') (\<lambda>rd.
     bindE (op_get operands ''rn'') (\<lambda>rn.
     bindE (op_get operands ''offset'') (\<lambda>offset.
     bindE (reg_get s rn) (\<lambda>base.
       let address = base + offset in
       bindE (probe_caches s address False) (\<lambda>s1.
         let val = read_memory_word s1 address in
         reg_set s1 rd val)))))"

subsection \<open>Thumb handlers\<close>

definition execute_thumb_mov_imm :: "EnhancedARMExecutor \<Rightarrow> operands \<Rightarrow> py_error + EnhancedARMExecutor" where
  "execute_thumb_mov_imm s operands =
     bindE (op_get operands ''rd'') (\<lambda>rd.
     bindE (op_get operands ''immediate'') (\<lambda>immediate.
     reg_set s rd immediate))"

definition execute_thumb_add_imm :: "EnhancedARMExecutor \<Rightarrow> operands \<Rightarrow> py_error + EnhancedARMExecutor" where
  "execute_thumb_add_imm s operands =
     bindE (op_get operands ''rd'') (\<lambda>rd.
     bindE (op_get operands ''immediate'') (\<lambda>immediate.
     bindE (reg_get s rd) (\<lambda>a.
       let result = a + immediate in
       reg_set s rd (result AND 0xFFFFFFFF))))"

definition execute_thumb_cmp :: "EnhancedARMExecutor \<Rightarrow> operands \<Rightarrow> py_error + EnhancedARMExecutor" where
  "execute_thumb_cmp s operands =
     bindE (op_get operands ''rd'') (\<lambda>rd.
     bindE (op_get operands ''rs'') (\<lambda>rs.
     bindE (reg_get s rd) (\<lambda>a.
     bindE (reg_get s rs) (\<lambda>b.
       let result = a - b in
       Inr (update_flags s result)))))"

definition execute_thumb_sub_imm :: "EnhancedARMExecutor \<Rightarrow> operands \<Rightarrow> py_error + EnhancedARMExecutor" where
  "execute_thumb_sub_imm s operands =
     bindE (op_get operands ''rd'') (\<lambda>rd.
     bindE (op_get operands ''immediate'') (\<lambda>immediate.
     bindE (reg_get s rd) (\<lambda>a.
       let result = a - immediate in
       reg_set s rd (result AND 0xFFFFFFFF))))"

definition execute_thumb_cmp_imm :: "EnhancedARMExecutor \<Rightarrow> operands \<Rightarrow> py_error + EnhancedARMExecutor" where
  "execute_thumb_cmp_imm s operands =
     bindE (op_get operands ''rd'') (\<lambda>rd.
     bindE (op_get operands ''immediate'') (\<lambda>immediate.
     bindE (reg_get s rd) (\<lambda>a.
       let result = a - immediate in
       Inr (update_flags s result))))"

definition execute_thumb_add :: "EnhancedARMExecutor \<Rightarrow> operands \<Rightarrow> py_error + EnhancedARMExecutor" where
  "execute_thumb_add s operands =
     bindE (op_get operands ''rd'') (\<lambda>rd.
     bindE (op_get operands ''rs'') (\<lambda>rs.
     bindE (reg_get s rd) (\<lambda>a.
     bindE (reg_get s rs) (\<lambda>b.
       let result = a + b in
       reg_set s rd (result AND 0xFFFFFFFF)))))"

definition execute_thumb_sub :: "EnhancedARMExecutor \<Rightarrow> operands \<Rightarrow> py_error + EnhancedARMExecutor" where
  "execute_thumb_sub s operands =
     bindE (op_get operands ''rd'') (\<lambda>rd.
     bindE (op_get operands ''rs'') (\<lambda>rs.
     bindE (reg_get s rd) (\<lambda>a.
     bindE (reg_get s rs) (\<lambda>b.
       let result = a - b in
       reg_set s rd (result AND 0xFFFFFFFF)))))"

definition execute_thumb_mov_hi :: "EnhancedARMExecutor \<Rightarrow> operands \<Rightarrow> py_error + EnhancedARMExecutor" where
  "execute_thumb_mov_hi s operands =
     bindE (op_get operands ''rd'') (\<lambda>rd.
     bindE (op_get operands ''rs'') (\<lambda>rs.
     bindE (reg_get s rs) (\<lambda>v. reg_set s rd v)))"

text \<open>With a cache attached the Thumb load calls \<^verbatim>\<open>access_data(address)\<close> with one
  argument, but the method has two required parameters: the call raises TypeError before
  the method body runs. Without a cache the word is read from memory.\<close>

definition execute_thumb_ldr :: "EnhancedARMExecutor \<Rightarrow> operands \<Rightarrow> py_error + EnhancedARMExecutor" where
  "execute_thumb_ldr s operands =
     bindE (op_get operands ''rd'') (\<lambda>rd.
     bindE (op_get operands ''rb'') (\<lambda>rb.
     bindE (op_get operands ''offset'') (\<lambda>offset.
     bindE (reg_get s rb) (\<lambda>base.
       let address = base + push_bit 2 offset in
       bindE (case cache s of
                Some c \<Rightarrow> Inl TypeError
              | None \<Rightarrow> Inr (read_memory_word s address)) (\<lambda>val.
         reg_set s rd val)))))"

text \<open>The Thumb store computes the address and the value, probes the data cache when
  one is attached, and returns: it has no call of \<open>write_memory_word\<close>.\<close>

definition execute_thumb_str :: "EnhancedARMExecutor \<Rightarrow> operands \<Rightarrow> py_error + EnhancedARMExecutor" where
  "execute_thumb_str s operands =
     bindE (op_get operands ''rd'') (\<lambda>rd.
     bindE (op_get operands ''rb'') (\<lambda>rb.
     bindE (op_get operands ''offset'') (\<lambda>offset.
     bindE (reg_get s rb) (\<lambda>base.
       let address = base + push_bit 2 offset in
       bindE (reg_get s rd) (\<lambda>val.
         case cache s of
           Some c \<Rightarrow> bindE (access_data c address True) (\<lambda>c1. Inr (s\<lparr>cache := Some c1\<rparr>))
         | None \<Rightarrow> Inr s)))))"

definition execute_thumb_branch :: "EnhancedARMExecutor \<Rightarrow> operands \<Rightarrow> py_error + EnhancedARMExecutor" where
  "execute_thumb_branch s operands =
     bindE (op_get operands ''offset'') (\<lambda>offset.
     let branch_offset = push_bit 1 offset in
     bindE (reg_get s PC) (\<lambda>old_pc.
       reg_set s PC ((old_pc + 4 + branch_offset) AND 0xFFFFFFFF)))"

definition check_condition :: "EnhancedARMExecutor \<Rightarrow> int \<Rightarrow> bool" where
  "check_condition s condition =
     (if condition = 0x0 then get_cpsr_flag s ''Z''
      else if condition = 0x1 then \<not> get_cpsr_flag s ''Z''
      else if condition = 0x2 then get_cpsr_flag s ''C''
      else if condition = 0x3 then \<not> get_cpsr_flag s ''C''
      else if condition = 0x4 then get_cpsr_flag s ''N''
      else if condition = 0x5 then \<not> get_cpsr_flag s ''N''
      else if condition = 0x6 then get_cpsr_flag s ''V''
      else if condition = 0x7 then \<not> get_cpsr_flag s ''V''
      else if condition = 0x8 then get_cpsr_flag s ''C'' \<and> \<not> get_cpsr_flag s ''Z''
      else if condition = 0x9 then \<not> get_cpsr_flag s ''C'' \<or> get_cpsr_flag s ''Z''
      else if condition = 0xA then get_cpsr_flag s ''N'' = get_cpsr_flag s ''V''
      else if condition = 0xB then get_cpsr_flag s ''N'' \<noteq> get_cpsr_flag s ''V''
      else if condition = 0xC then
        \<not> get_cpsr_flag s ''Z'' \<and> (get_cpsr_flag s ''N'' = get_cpsr_flag s ''V'')
      else if condition = 0xD then
        get_cpsr_flag s ''Z'' \<or> (get_cpsr_flag s ''N'' \<noteq> get_cpsr_flag s ''V'')
      else if condition = 0xE then True
      else if condition = 0xF then False
      else False)"

definition execute_thumb_branch_conditional :: "EnhancedARMExecutor \<Rightarrow> operands \<Rightarrow> py_error + EnhancedARMExecutor" where
  "execute_thumb_branch_conditional s operands =
     bindE (op_get operands ''condition'') (\<lambda>condition.
     bindE (op_get operands ''offset'') (\<lambda>offset.
     let should_branch = check_condition s condition in
     if should_branch then
       (let branch_offset = push_bit 1 offset in
        bindE (reg_get s PC) (\<lambda>old_pc.
          reg_set s PC ((old_pc + 4 + branch_offset) AND 0xFFFFFFFF)))
     else Inr s))"

definition execute_thumb_bx :: "EnhancedARMExecutor \<Rightarrow> operands \<Rightarrow> py_error + EnhancedARMExecutor" where
  "execute_thumb_bx s operands =
     bindE (op_get operands ''rs'') (\<lambda>rs.
     bindE (reg_get s rs) (\<lambda>target.
       if target AND 1 \<noteq> 0 then
         bindE (switch_mode s ''Thumb'') (\<lambda>s1. reg_set s1 PC (target AND 0xFFFFFFFE))
       else
         bindE (switch_mode s ''ARM'') (\<lambda>s1. reg_set s1 PC (target AND 0xFFFFFFFC))))"

definition execute_thumb_and :: "EnhancedARMExecutor \<Rightarrow> operands \<Rightarrow> py_error + EnhancedARMExecutor" where
  "execute_thumb_and s operands =
     bindE (op_get operands ''rd'') (\<lambda>rd.
     bindE (op_get operands ''rs'') (\<lambda>rs.
     bindE (reg_get s rd) (\<lambda>a.
     bindE (reg_get s rs) (\<lambda>b.
       let result = a AND b in
       reg_set s rd (result AND 0xFFFFFFFF)))))"

definition execute_thumb_eor :: "EnhancedARMExecutor \<Rightarrow> operands \<Rightarrow> py_error + EnhancedARMExecutor" where
  "execute_thumb_eor s operands =
     bindE (op_get operands ''rd'') (\<lambda>rd.
     bindE (op_get operands ''rs'') (\<lambda>rs.
     bindE (reg_get s rd) (\<lambda>a.
     bindE (reg_get s rs) (\<lambda>b.
       let result = a XOR b in
       reg_set s rd (result AND 0xFFFFFFFF)))))"

definition execute_thumb_orr :: "EnhancedARMExecutor \<Rightarrow> operands \<Rightarrow> py_error + EnhancedARMExecutor" where
  "execute_thumb_orr s operands =
     bindE (op_get operands ''rd'') (\<lambda>rd.
     bindE (op_get operands ''rs'') (\<lambda>rs.
     bindE (reg_get s rd) (\<lambda>a.
     bindE (reg_get s rs) (\<lambda>b.
       let result = a OR b in
       reg_set s rd (result AND 0xFFFFFFFF)))))"

definition execute_thumb_mul :: "EnhancedARMExecutor \<Rightarrow> operands \<Rightarrow> py_error + EnhancedARMExecutor" where
  "execute_thumb_mul s operands =
     bindE (op_get operands ''rd'') (\<lambda>rd.
     bindE (op_get operands ''rs'') (\<lambda>rs.
     bindE (reg_get s rd) (\<lambda>a.
     bindE (reg_get s rs) (\<lambda>b.
       let result = a * b in
       reg_set s rd (result AND 0xFFFFFFFF)))))"

subsection \<open>Dispatch\<close>

text \<open>The wrapper class defines \<^verbatim>\<open>decode_instruction\<close> twice; the second definition
  is the one in effect. The engine calls it with \<^verbatim>\<open>mode="ARM"\<close> only. For a mode other
  than "ARM" and "THUMB" it returns a bare string, which the caller's unpacking into two
  names rejects with ValueError.\<close>

definition enhanced_decode_instruction :: "int \<Rightarrow> int \<Rightarrow> string \<Rightarrow> py_error + (string \<times> operands)" where
  "enhanced_decode_instruction instruction address md =
     (if md = ''ARM'' then Inr (decode_instruction instruction address)
      else if md = ''THUMB'' then decode_thumb_instruction instruction address
      else Inl ValueError)"

definition execute_arm_instruction :: "EnhancedARMExecutor \<Rightarrow> int \<Rightarrow> py_error + EnhancedARMExecutor" where
  "execute_arm_instruction s instruction =
     bindE (reg_get s PC) (\<lambda>pc.
     bindE (enhanced_decode_instruction instruction pc ''ARM'') (\<lambda>(instr_type, operands).
       if instr_type = ''MOV'' then execute_arm_mov s operands
       else if instr_type = ''MOV_IMM'' then execute_arm_mov_imm s operands
       else if instr_type = ''ADD'' then execute_arm_add s operands
       else if instr_type = ''ADD_IMM'' then execute_arm_add_imm s operands
       else if instr_type = ''SUB'' then execute_arm_sub s operands
       else if instr_type = ''SUB_IMM'' then execute_arm_sub_imm s operands
       else if instr_type = ''LDR'' then execute_arm_ldr s operands
       else if instr_type = ''STR'' then execute_arm_str s operands
       else if instr_type = ''CMP'' then execute_arm_cmp s operands
       else if instr_type = ''CMP_IMM'' then execute_arm_cmp_imm s operands
       else if instr_type = ''B'' then execute_arm_branch s operands
       else if instr_type = ''BL'' then execute_arm_branch_link s operands
       else if instr_type = ''MUL'' then execute_arm_mul s operands
       else if instr_type = ''AND'' then execute_arm_and s operands
       else if instr_type = ''ORR'' then execute_arm_orr s operands
       else if instr_type = ''BX'' then execute_arm_bx s operands
       else if instr_type = ''EOR'' then execute_arm_eor s operands
       else if instr_type = ''EOR_IMM'' then execute_arm_eor_imm s operands
       else if instr_type = ''AND_IMM'' then execute_arm_and_imm s operands
       else if instr_type = ''ORR_IMM'' then execute_arm_orr_imm s operands
       else if instr_type = ''BIC'' then execute_arm_bic s operands
       else if instr_type = ''BIC_IMM'' then execute_arm_bic_imm s operands
       else if instr_type = ''MVN'' then execute_arm_mvn s operands
       else if instr_type = ''MVN_IMM'' then execute_arm_mvn_imm s operands
       else if instr_type = ''TST'' then execute_arm_tst s operands
       else if instr_type = ''TST_IMM'' then execute_arm_tst_imm s operands
       else if instr_type = ''TEQ'' then execute_arm_teq s operands
       else if instr_type = ''TEQ_IMM'' then execute_arm_teq_imm s operands
       else Inr s))"

definition execute_thumb_instruction :: "EnhancedARMExecutor \<Rightarrow> int \<Rightarrow> py_error + EnhancedARMExecutor" where
  "execute_thumb_instruction s instruction =
     bindE (reg_get s PC) (\<lambda>pc.
     bindE (decode_thumb_instruction instruction 0) (\<lambda>(instr_type, operands).
       if instr_type = ''T_MOV_IMM'' then execute_thumb_mov_imm s operands
       else if instr_type = ''T_ADD_IMM'' then execute_thumb_add_imm s operands
       else if instr_type = ''T_SUB_IMM'' then execute_thumb_sub_imm s operands
       else if instr_type = ''T_CMP_IMM'' then execute_thumb_cmp_imm s operands
       else if instr_type = ''T_ADD'' then execute_thumb_add s operands
       else if instr_type = ''T_SUB'' then execute_thumb_sub s operands
       else if instr_type = ''T_MOV_HI'' then execute_thumb_mov_hi s operands
       else if instr_type = ''T_LDR'' then execute_thumb_ldr s operands
       else if instr_type = ''T_STR'' then execute_thumb_str s operands
       else if instr_type = ''T_B'' then execute_thumb_branch s operands
       else if instr_type = ''T_BCC'' then execute_thumb_branch_conditional s operands
       else if instr_type = ''T_BX'' then execute_thumb_bx s operands
       else if instr_type = ''T_CMP'' then execute_thumb_cmp s operands
       else if instr_type = ''T_AND'' then execute_thumb_and s operands
       else if instr_type = ''T_EOR'' then execute_thumb_eor s operands
       else if instr_type = ''T_ORR'' then execute_thumb_orr s operands
       else if instr_type = ''T_MUL'' then execute_thumb_mul s operands
       else Inr s))"

subsection \<open>The execution loop\<close>

text \<open>One pass through the body of the \<^verbatim>\<open>while\<close> loop of \<open>execute_program\<close>:
  \<open>Break\<close> is the \<^verbatim>\<open>break\<close> after the "PC beyond program bounds" message,
  \<open>Continue\<close> the end of the body, after the instruction counter was incremented.\<close>

datatype loop_step = Break EnhancedARMExecutor | Continue EnhancedARMExecutor

text \<open>The index into the program list for the current PC ("pick the right index").\<close>

definition instr_index_of :: "EnhancedARMExecutor \<Rightarrow> int \<Rightarrow> py_error + int" where
  "instr_index_of s pc_val =
     (if mode s = ''ARM'' then Inr (pc_val div 4)
      else (case thumb_base s of
              None \<Rightarrow> Inl AttributeError
            | Some tb \<Rightarrow>
                (let offset = pc_val - tb in
                 case arm_count s of
                   None \<Rightarrow> Inl AttributeError
                 | Some ac \<Rightarrow> Inr (ac + offset div 2))))"

text \<open>"Execute and advance PC if unchanged by instruction": the handler runs, and the
  engine adds the instruction width when the PC still equals its value at fetch.\<close>

definition execute_and_advance :: "EnhancedARMExecutor \<Rightarrow> int \<Rightarrow> int \<Rightarrow> py_error + EnhancedARMExecutor" where
  "execute_and_advance s1 instruction pc_val =
     (if mode s1 = ''ARM'' then
        bindE (execute_arm_instruction s1 (instruction AND 0xFFFFFFFF)) (\<lambda>s2.
        bindE (reg_get s2 PC) (\<lambda>pc2.
          if pc2 = pc_val then reg_set s2 PC (pc2 + 4) else Inr s2))
      else
        bindE (execute_thumb_instruction s1 (instruction AND 0xFFFF)) (\<lambda>s2.
        bindE (reg_get s2 PC) (\<lambda>pc2.
          if pc2 = pc_val then reg_set s2 PC (pc2 + 2) else Inr s2)))"

definition execute_program_body :: "EnhancedARMExecutor \<Rightarrow> py_error + loop_step" where
  "execute_program_body s =
     bindE (reg_get s PC) (\<lambda>pc_val.
     bindE (instr_index_of s pc_val) (\<lambda>instr_index.
       if instr_index < 0 \<or> instr_index \<ge> int (length (program s)) then Inr (Break s)
       else
         bindE (py_index (program s) instr_index) (\<lambda>(instruction, instr_mode).
         bindE (if mode s \<noteq> instr_mode then switch_mode s instr_mode else Inr s) (\<lambda>s1.
         bindE (execute_and_advance s1 instruction pc_val) (\<lambda>s3.
           Inr (Continue (s3\<lparr>instruction_count := instruction_count s3 + 1\<rparr>)))))))"

text \<open>The handlers leave the loop's control fields alone; the loop's termination rests
  on that.\<close>

definition ctl_eq :: "EnhancedARMExecutor \<Rightarrow> EnhancedARMExecutor \<Rightarrow> bool" where
  "ctl_eq s s' =
     (instruction_count s' = instruction_count s \<and> max_instructions s' = max_instructions s
      \<and> running s' = running s \<and> program s' = program s
      \<and> arm_count s' = arm_count s \<and> thumb_base s' = thumb_base s)"

lemma bindE_Inr_iff: "bindE m f = Inr y \<longleftrightarrow> (\<exists>x. m = Inr x \<and> f x = Inr y)"
  by (cases m) (simp_all add: bindE_def)

lemma bindE_Inr [simp]: "bindE (Inr x) f = f x"
  by (simp add: bindE_def)

lemma bindE_Inl [simp]: "bindE (Inl e) f = Inl e"
  by (simp add: bindE_def)

lemma ctl_eq_refl: "ctl_eq s s"
  by (simp add: ctl_eq_def)

lemma ctl_eq_trans: "ctl_eq s s1 \<Longrightarrow> ctl_eq s1 s2 \<Longrightarrow> ctl_eq s s2"
  by (simp add: ctl_eq_def)

lemma reg_set_ctl: "reg_set s i v = Inr s' \<Longrightarrow> ctl_eq s s'"
  by (auto simp: reg_set_def bindE_Inr_iff ctl_eq_def)

lemma update_flags_ctl: "ctl_eq s (update_flags s r)"
  by (simp add: update_flags_def set_cpsr_flag_def ctl_eq_def Let_def split: option.splits)

lemma switch_mode_ctl: "switch_mode s m = Inr s' \<Longrightarrow> ctl_eq s s'"
  by (auto simp: switch_mode_def ctl_eq_def split: if_splits)

lemma write_memory_word_ctl: "ctl_eq s (write_memory_word s a v)"
  by (simp add: write_memory_word_def ctl_eq_def Let_def)

lemma probe_caches_ctl: "probe_caches s a w = Inr s' \<Longrightarrow> ctl_eq s s'"
  by (auto simp: probe_caches_def bindE_Inr_iff ctl_eq_def split: option.splits)

lemma cache_update_ctl: "ctl_eq s (s\<lparr>cache := c\<rparr>)"
  by (simp add: ctl_eq_def)

lemmas ctl_intros = reg_set_ctl update_flags_ctl switch_mode_ctl write_memory_word_ctl
  probe_caches_ctl cache_update_ctl ctl_eq_refl

lemmas arm_handler_defs = execute_arm_mov_def execute_arm_mov_imm_def execute_arm_add_def
  execute_arm_add_imm_def execute_arm_sub_def execute_arm_sub_imm_def execute_arm_ldr_def
  execute_arm_str_def execute_arm_cmp_def execute_arm_cmp_imm_def execute_arm_branch_def
  execute_arm_branch_link_def execute_arm_mul_def execute_arm_and_def execute_arm_orr_def
  execute_arm_bx_def execute_arm_eor_def execute_arm_eor_imm_def execute_arm_and_imm_def
  execute_arm_orr_imm_def execute_arm_bic_def execute_arm_bic_imm_def execute_arm_mvn_def
  execute_arm_mvn_imm_def execute_arm_tst_def execute_arm_tst_imm_def execute_arm_teq_def
  execute_arm_teq_imm_def

lemmas thumb_handler_defs = execute_thumb_mov_imm_def execute_thumb_add_imm_def
  execute_thumb_sub_imm_def execute_thumb_cmp_imm_def execute_thumb_add_def
  execute_thumb_sub_def execute_thumb_mov_hi_def execute_thumb_ldr_def execute_thumb_str_def
  execute_thumb_branch_def execute_thumb_branch_conditional_def execute_thumb_bx_def
  execute_thumb_cmp_def execute_thumb_and_def execute_thumb_eor_def execute_thumb_orr_def
  execute_thumb_mul_def

lemma execute_arm_instruction_ctl: "execute_arm_instruction s i = Inr s' \<Longrightarrow> ctl_eq s s'"
  unfolding execute_arm_instruction_def bindE_Inr_iff
  apply (elim exE conjE)
  apply (simp only: split_paired_all prod.case split: if_splits)
  apply (auto simp: arm_handler_defs bindE_Inr_iff Let_def split: if_splits
              intro: ctl_intros ctl_eq_trans)
  done

lemma execute_thumb_instruction_ctl: "execute_thumb_instruction s i = Inr s' \<Longrightarrow> ctl_eq s s'"
  unfolding execute_thumb_instruction_def bindE_Inr_iff
  apply (elim exE conjE)
  apply (simp only: split_paired_all prod.case split: if_splits)
  apply (auto simp: thumb_handler_defs bindE_Inr_iff Let_def split: if_splits option.splits
              intro: ctl_intros ctl_eq_trans)
  done

lemma advance_pc_ctl:
  assumes "bindE (reg_get s2 PC) (\<lambda>pc2. if pc2 = pc_val then reg_set s2 PC (pc2 + k) else Inr s2) = Inr s3"
  shows "ctl_eq s2 s3"
proof -
  from assms obtain pc2 where
    "(if pc2 = pc_val then reg_set s2 PC (pc2 + k) else Inr s2) = Inr s3"
    by (auto simp: bindE_Inr_iff)
  then show ?thesis
    by (cases "pc2 = pc_val") (auto intro: reg_set_ctl ctl_eq_refl)
qed

lemma bindE_InrE:
  assumes "bindE m f = Inr y"
  obtains x where "m = Inr x" and "f x = Inr y"
  using assms by (cases m) (simp_all add: bindE_def)

lemma execute_and_advance_ctl:
  assumes "execute_and_advance s1 i pc_val = Inr s3"
  shows "ctl_eq s1 s3"
proof (cases "mode s1 = ''ARM''")
  case True
  with assms obtain s2 where a: "execute_arm_instruction s1 (i AND 0xFFFFFFFF) = Inr s2"
    and b: "bindE (reg_get s2 PC) (\<lambda>pc2.
               if pc2 = pc_val then reg_set s2 PC (pc2 + 4) else Inr s2) = Inr s3"
    unfolding execute_and_advance_def by (auto elim: bindE_InrE)
  from a have "ctl_eq s1 s2" by (rule execute_arm_instruction_ctl)
  moreover from b have "ctl_eq s2 s3" by (rule advance_pc_ctl)
  ultimately show ?thesis by (rule ctl_eq_trans)
next
  case False
  with assms obtain s2 where a: "execute_thumb_instruction s1 (i AND 0xFFFF) = Inr s2"
    and b: "bindE (reg_get s2 PC) (\<lambda>pc2.
               if pc2 = pc_val then reg_set s2 PC (pc2 + 2) else Inr s2) = Inr s3"
    unfolding execute_and_advance_def by (auto elim: bindE_InrE)
  from a have "ctl_eq s1 s2" by (rule execute_thumb_instruction_ctl)
  moreover from b have "ctl_eq s2 s3" by (rule advance_pc_ctl)
  ultimately show ?thesis by (rule ctl_eq_trans)
qed

lemma maybe_switch_ctl:
  assumes "(if mode s \<noteq> m then switch_mode s m else Inr s) = Inr s1"
  shows "ctl_eq s s1"
  using assms by (cases "mode s \<noteq> m") (auto intro: switch_mode_ctl ctl_eq_refl)

lemma execute_program_body_ctl:
  assumes "execute_program_body s = Inr (Continue s')"
  shows "\<exists>s3. ctl_eq s s3 \<and> s' = s3\<lparr>instruction_count := instruction_count s3 + 1\<rparr>"
proof -
  from assms obtain pc_val instr_index where
    r: "(if instr_index < 0 \<or> instr_index \<ge> int (length (program s)) then Inr (Break s)
         else
           bindE (py_index (program s) instr_index) (\<lambda>(instruction, instr_mode).
           bindE (if mode s \<noteq> instr_mode then switch_mode s instr_mode else Inr s) (\<lambda>s1.
           bindE (execute_and_advance s1 instruction pc_val) (\<lambda>s3.
             Inr (Continue (s3\<lparr>instruction_count := instruction_count s3 + 1\<rparr>))))))
        = Inr (Continue s')"
    unfolding execute_program_body_def by (elim bindE_InrE)
  then have "bindE (py_index (program s) instr_index) (\<lambda>(instruction, instr_mode).
           bindE (if mode s \<noteq> instr_mode then switch_mode s instr_mode else Inr s) (\<lambda>s1.
           bindE (execute_and_advance s1 instruction pc_val) (\<lambda>s3.
             Inr (Continue (s3\<lparr>instruction_count := instruction_count s3 + 1\<rparr>)))))
        = Inr (Continue s')"
    by (simp split: if_splits)
  then obtain instruction instr_mode s1 s3 where
    sw: "(if mode s \<noteq> instr_mode then switch_mode s instr_mode else Inr s) = Inr s1"
    and ex: "execute_and_advance s1 instruction pc_val = Inr s3"
    and s': "s' = s3\<lparr>instruction_count := instruction_count s3 + 1\<rparr>"
    by (elim bindE_InrE) (simp split: prod.splits, elim bindE_InrE, simp)
  from sw have "ctl_eq s s1" by (rule maybe_switch_ctl)
  moreover from ex have "ctl_eq s1 s3" by (rule execute_and_advance_ctl)
  ultimately have "ctl_eq s s3" by (rule ctl_eq_trans)
  with s' show ?thesis by blast
qed

lemma execute_program_body_Continue:
  assumes "execute_program_body s = Inr (Continue s')"
  shows "instruction_count s' = instruction_count s + 1"
    and "max_instructions s' = max_instructions s"
    and "running s' = running s"
  using execute_program_body_ctl [OF assms] by (auto simp: ctl_eq_def)

text \<open>The \<^verbatim>\<open>while\<close> loop. The boolean of the result says whether the loop was left by
  the \<^verbatim>\<open>break\<close>, that is, whether "PC beyond program bounds" was printed.\<close>

function execute_program_loop :: "EnhancedARMExecutor \<Rightarrow> py_error + (EnhancedARMExecutor \<times> bool)" where
  "execute_program_loop s =
     (if running s \<and> instruction_count s < max_instructions s then
        (case execute_program_body s of
           Inl e \<Rightarrow> Inl e
         | Inr (Break s') \<Rightarrow> Inr (s', True)
         | Inr (Continue s') \<Rightarrow> execute_program_loop s')
      else Inr (s, False))"
  by pat_completeness auto
termination
proof (relation "measure (\<lambda>s. nat (max_instructions s - instruction_count s))", goal_cases)
  case 1
  show ?case by simp
next
  case (2 s x s')
  then show ?case
    using execute_program_body_Continue(1,2) [of s s'] by simp
qed

declare execute_program_loop.simps [simp del]

text \<open>What a run reports: the final state, whether "PC beyond program bounds" was printed
  (the normal stop), and whether "Maximum instruction limit reached" was printed (the test
  after the loop).\<close>

record run_report =
  final :: EnhancedARMExecutor
  pc_beyond_bounds :: bool
  limit_reached :: bool

definition execute_program :: "EnhancedARMExecutor \<Rightarrow> py_error + run_report" where
  "execute_program s =
     bindE (execute_program_loop s) (\<lambda>(s', broke).
       Inr \<lparr>final = s', pc_beyond_bounds = broke,
            limit_reached = (instruction_count s' \<ge> max_instructions s')\<rparr>)"

section \<open>Memory words\<close>

lemma and_255: "(x::int) AND 255 = take_bit 8 x"
  by (simp add: take_bit_eq_mask mask_eq_exp_minus_1)

lemma and_FFFFFFFF: "(x::int) AND 0xFFFFFFFF = x mod 2 ^ 32"
proof -
  have "x AND mask 32 = x mod 2 ^ 32" by (simp only: take_bit_eq_mask [symmetric] take_bit_eq_mod)
  then show ?thesis by (simp add: mask_eq_exp_minus_1)
qed

lemma word_of_bytes:
  "((take_bit 8 v OR push_bit 8 (take_bit 8 (drop_bit 8 v)))
     OR push_bit 16 (take_bit 8 (drop_bit 16 v))) OR push_bit 24 (take_bit 8 (drop_bit 24 v)) = take_bit 32 (v::int)"
proof (rule bit_eqI)
  fix n :: nat
  consider "n < 8" | "8 \<le> n" "n < 16" | "16 \<le> n" "n < 24" | "24 \<le> n" "n < 32" | "32 \<le> n"
    by linarith
  then show "bit (((take_bit 8 v OR push_bit 8 (take_bit 8 (drop_bit 8 v)))
     OR push_bit 16 (take_bit 8 (drop_bit 16 v))) OR push_bit 24 (take_bit 8 (drop_bit 24 v))) n
     = bit (take_bit 32 v) n"
    by cases (auto simp add: bit_simps)
qed

lemma read_memory_word_eq:
  "read_memory_word s a =
     ((memory_get s a OR push_bit 8 (memory_get s (a + 1))) OR push_bit 16 (memory_get s (a + 2)))
       OR push_bit 24 (memory_get s (a + 3))"
  by (simp add: read_memory_word_def Let_def)

lemma memory_write_memory_word:
  "memory (write_memory_word s a v) =
     (memory s)(a \<mapsto> take_bit 8 v, a + 1 \<mapsto> take_bit 8 (drop_bit 8 v),
                a + 2 \<mapsto> take_bit 8 (drop_bit 16 v), a + 3 \<mapsto> take_bit 8 (drop_bit 24 v))"
  by (simp add: write_memory_word_def Let_def and_255)

lemma read_write_memory_word: "read_memory_word (write_memory_word s a v) a = take_bit 32 v"
  by (simp add: read_memory_word_eq memory_get_def memory_write_memory_word word_of_bytes)

lemma memory_get_write_memory_word:
  "memory_get (write_memory_word s a v) b =
     (if b = a + 3 then take_bit 8 (drop_bit 24 v)
      else if b = a + 2 then take_bit 8 (drop_bit 16 v)
      else if b = a + 1 then take_bit 8 (drop_bit 8 v)
      else if b = a then take_bit 8 v
      else memory_get s b)"
  by (simp add: memory_get_def memory_write_memory_word)

text \<open>
  Claim C9. For every address \<open>a\<close> and every value \<open>v\<close> with \<open>0 \<le> v < 2^32\<close>, writing the
  word at \<open>a\<close> and reading it back returns exactly \<open>v\<close>; the word is stored little-endian,
  byte \<open>i\<close> of the value (\<open>v div 256^i mod 256\<close>) at address \<open>a + i\<close> for \<open>i = 0..3\<close>;
  the bytes at all other addresses are unchanged; and an address that was never written
  reads as byte 0.
\<close>

theorem memory_word_roundtrip:
  assumes "0 \<le> v" and "v < 2 ^ 32"
  shows "read_memory_word (write_memory_word s a v) a = v
       \<and> read_memory_byte (write_memory_word s a v) a = v mod 256
       \<and> read_memory_byte (write_memory_word s a v) (a + 1) = v div 2 ^ 8 mod 256
       \<and> read_memory_byte (write_memory_word s a v) (a + 2) = v div 2 ^ 16 mod 256
       \<and> read_memory_byte (write_memory_word s a v) (a + 3) = v div 2 ^ 24 mod 256
       \<and> (\<forall>b. b < a \<or> a + 3 < b \<longrightarrow> memory (write_memory_word s a v) b = memory s b)
       \<and> (\<forall>b. memory s b = None \<longrightarrow> read_memory_byte s b = 0)"
proof -
  have "take_bit 32 v = v"
    using assms by (simp add: take_bit_int_eq_self)
  then have rt: "read_memory_word (write_memory_word s a v) a = v"
    by (simp add: read_write_memory_word)
  have bytes: "read_memory_byte (write_memory_word s a v) a = v mod 256"
    "read_memory_byte (write_memory_word s a v) (a + 1) = v div 2 ^ 8 mod 256"
    "read_memory_byte (write_memory_word s a v) (a + 2) = v div 2 ^ 16 mod 256"
    "read_memory_byte (write_memory_word s a v) (a + 3) = v div 2 ^ 24 mod 256"
    by (simp_all add: read_memory_byte_def memory_get_write_memory_word
          take_bit_eq_mod drop_bit_eq_div)
  have others: "\<forall>b. b < a \<or> a + 3 < b \<longrightarrow> memory (write_memory_word s a v) b = memory s b"
    by (auto simp: memory_write_memory_word)
  have unwritten: "\<forall>b. memory s b = None \<longrightarrow> read_memory_byte s b = 0"
    by (simp add: read_memory_byte_def memory_get_def)
  from rt bytes others unwritten show ?thesis by blast
qed

theorem memory_word_roundtrip_witness:
  "read_memory_word (write_memory_word (EnhancedARMExecutor_init None) 0x100 0x12345678) 0x100
     = 0x12345678
   \<and> read_memory_byte (write_memory_word (EnhancedARMExecutor_init None) 0x100 0x12345678) 0x100
     = 0x78
   \<and> read_memory_byte (write_memory_word (EnhancedARMExecutor_init None) 0x100 0x12345678) 0x103
     = 0x12
   \<and> memory (write_memory_word (EnhancedARMExecutor_init None) 0x100 0x12345678) 0x104 = None
   \<and> read_memory_byte (EnhancedARMExecutor_init None) 0x104 = 0"
proof -
  have m: "memory (EnhancedARMExecutor_init None) = Map.empty"
    by (simp add: EnhancedARMExecutor_init_def)
  show ?thesis
    using memory_word_roundtrip [of "0x12345678" "EnhancedARMExecutor_init None" "0x100"]
    by (simp add: m)
qed

section \<open>Cache hierarchy: reset\<close>

text \<open>The executor holds a reference to the cache hierarchy object, so a call of \<open>reset\<close>
  on that object shows in the executor's state as a change of its \<open>cache\<close> field only.\<close>

definition executor_after_cache_reset :: "EnhancedARMExecutor \<Rightarrow> EnhancedARMExecutor" where
  "executor_after_cache_reset s = s\<lparr>cache := map_option reset (cache s)\<rparr>"

definition stats_zero :: "BaseCache \<Rightarrow> bool" where
  "stats_zero c = (accesses c = 0 \<and> hits c = 0 \<and> misses c = 0 \<and> write_backs c = 0)"

lemma py_index_replicate: "0 \<le> i \<Longrightarrow> i < int n \<Longrightarrow> py_index (replicate n x) i = Inr x"
  by (simp add: py_index_def)

lemma py_store_replicate:
  "0 \<le> i \<Longrightarrow> i < int n \<Longrightarrow> py_store (replicate n x) i y = Inr ((replicate n x)[nat i := y])"
  by (simp add: py_store_def)

text \<open>
  Claim C2, as stated: after \<open>reset\<close> every line of every level is invalid, whatever the
  access history. It fails: with two-line first-level caches, one instruction fetch at
  address 0 followed by \<open>reset\<close> leaves line 0 of L1-Instruction valid, holding tag 0.
\<close>

theorem reset_keeps_valid_line_counterexample:
  "bindE (CacheSimulator_init (16, 8, ''direct'') (16, 8, ''direct'') (64, 32, ''direct''))
     (\<lambda>cs. bindE (access_instruction cs 0)
        (\<lambda>cs'. Inr (map valid (lines (L1I (reset cs'))), map tag (lines (L1I (reset cs'))))))
   = Inr ([True, False], [Some 0, None])"
  by (simp add: CacheSimulator_init_def BaseCache_init_def access_instruction_def access_def
      get_index_and_tag_def py_index_def py_store_def CacheLine_init_def Let_def
      stats_incr_def reset_def reset_stats_def numeral_2_eq_2)

text \<open>
  Claim C2, amended: after \<open>reset\<close>, in each of the three levels the counters accesses,
  hits, misses and write-backs are zero and the aggregated stats map is empty (every key
  reads 0), whatever the access history; the lines of every level (valid, tag, dirty) and
  the configuration are what they were before the reset; and in an executor that holds the
  hierarchy only the cache field changes: registers, memory, status word and mode are
  untouched.
\<close>

theorem reset_clears_statistics_only:
  "stats_zero (L1I (reset cs)) \<and> stats_zero (L1D (reset cs)) \<and> stats_zero (L2 (reset cs))
   \<and> stats (reset cs) = Map.empty \<and> (\<forall>k. stats_get (stats (reset cs)) k = 0)
   \<and> lines (L1I (reset cs)) = lines (L1I cs)
   \<and> lines (L1D (reset cs)) = lines (L1D cs)
   \<and> lines (L2 (reset cs)) = lines (L2 cs)
   \<and> registers (executor_after_cache_reset s) = registers s
   \<and> memory (executor_after_cache_reset s) = memory s
   \<and> cpsr (executor_after_cache_reset s) = cpsr s
   \<and> mode (executor_after_cache_reset s) = mode s
   \<and> cache (executor_after_cache_reset s) = map_option reset (cache s)"
proof -
  have counters: "stats_zero (reset_stats c)" for c
    by (simp add: stats_zero_def reset_stats_def)
  have same_lines: "lines (reset_stats c) = lines c" for c
    by (simp add: reset_stats_def)
  have levels: "L1I (reset cs) = reset_stats (L1I cs)" "L1D (reset cs) = reset_stats (L1D cs)"
    "L2 (reset cs) = reset_stats (L2 cs)" "stats (reset cs) = Map.empty"
    by (simp_all add: reset_def)
  show ?thesis
    by (simp add: levels counters same_lines stats_get_def executor_after_cache_reset_def)
qed

section \<open>Cache level: miss, hit, eviction and write-back\<close>

text \<open>A level that can serve accesses: a non-zero block size and at least one line.\<close>

definition cache_wf :: "BaseCache \<Rightarrow> bool" where
  "cache_wf c = (block_size c \<noteq> 0 \<and> 0 < num_blocks c \<and> length (lines c) = nat (num_blocks c))"

lemma get_index_and_tag_bounds:
  assumes "cache_wf c" and "get_index_and_tag c a = Inr (i, t)"
  shows "0 \<le> i" and "i < num_blocks c" and "t = a div block_size c"
  using assms
  by (auto simp: cache_wf_def get_index_and_tag_def Let_def split: if_splits)

lemma get_index_and_tag_config:
  assumes "block_size c' = block_size c" and "mapping c' = mapping c"
    and "num_blocks c' = num_blocks c"
  shows "get_index_and_tag c' a = get_index_and_tag c a"
  using assms by (simp add: get_index_and_tag_def Let_def)

lemma access_hit:
  assumes wf: "cache_wf c" and it: "get_index_and_tag c a = Inr (i, t)"
    and v: "valid (lines c ! nat i)" and tg: "tag (lines c ! nat i) = Some t"
  shows "access c a w = Inr (True, c\<lparr>accesses := accesses c + 1, hits := hits c + 1,
            lines := (lines c)[nat i := (if w then (lines c ! nat i)\<lparr>dirty := True\<rparr>
                                         else lines c ! nat i)]\<rparr>)"
proof -
  have b: "0 \<le> i" "i < int (length (lines c))"
    using get_index_and_tag_bounds [OF wf it] wf by (simp_all add: cache_wf_def)
  have it': "get_index_and_tag (c\<lparr>accesses := accesses c + 1\<rparr>) a = Inr (i, t)"
    using it get_index_and_tag_config [of "c\<lparr>accesses := accesses c + 1\<rparr>" c a] by simp
  show ?thesis
    using b v tg by (simp add: access_def it' py_index_def py_store_def Let_def)
qed

lemma access_miss:
  assumes wf: "cache_wf c" and it: "get_index_and_tag c a = Inr (i, t)"
    and nh: "\<not> (valid (lines c ! nat i) \<and> tag (lines c ! nat i) = Some t)"
  shows "access c a w = Inr (False, c\<lparr>accesses := accesses c + 1, misses := misses c + 1,
            write_backs := write_backs c
               + (if valid (lines c ! nat i) \<and> dirty (lines c ! nat i) then 1 else 0),
            lines := (lines c)[nat i :=
               (lines c ! nat i)\<lparr>valid := True, tag := Some t, dirty := w\<rparr>]\<rparr>)"
proof -
  have b: "0 \<le> i" "i < int (length (lines c))"
    using get_index_and_tag_bounds [OF wf it] wf by (simp_all add: cache_wf_def)
  have it': "get_index_and_tag (c\<lparr>accesses := accesses c + 1\<rparr>) a = Inr (i, t)"
    using it get_index_and_tag_config [of "c\<lparr>accesses := accesses c + 1\<rparr>" c a] by simp
  show ?thesis
  proof (cases "valid (lines c ! nat i) \<and> dirty (lines c ! nat i)")
    case True
    with b nh show ?thesis
      by (simp add: access_def it' py_index_def py_store_def Let_def)
  next
    case False
    with b nh show ?thesis
      by (simp add: access_def it' py_index_def py_store_def Let_def)
  qed
qed


lemma BaseCache_init_wf:
  assumes "BaseCache_init sz bs mp = Inr c0" and "0 < num_blocks c0"
  shows "cache_wf c0" and "write_backs c0 = 0"
    and "\<And>i. 0 \<le> i \<Longrightarrow> i < num_blocks c0 \<Longrightarrow> \<not> valid (lines c0 ! nat i)"
  using assms
  by (auto simp: BaseCache_init_def cache_wf_def CacheLine_init_def split: if_splits)

text \<open>
  Claim C5. For a single cache level with all lines invalid (as the constructor leaves
  it) and at least one line: the first access to any address \<open>a\<close> is a miss; an
  immediately following access to \<open>a\<close> is a hit; and a later access to an address \<open>b\<close>
  that maps to the same index with a different tag is a miss that evicts the line,
  installs \<open>b\<close>'s tag with dirty = is_write, and counts exactly one write-back iff the
  evicted line was dirty (the installing access or the hit was a write), none otherwise.
  The mapping policy is arbitrary: "direct" is direct-mapped, any other value the
  single-set mapping with index 0.
\<close>

theorem cache_miss_hit_evict:
  assumes init: "BaseCache_init sz bs mp = Inr c0"
    and nb: "0 < num_blocks c0"
    and ia: "get_index_and_tag c0 a = Inr (i, ta)"
    and ib: "get_index_and_tag c0 b = Inr (i, tb)"
    and ne: "ta \<noteq> tb"
  shows "\<exists>c1 c2 c3 c3'.
           access c0 a w1 = Inr (False, c1)
         \<and> access c1 a w2 = Inr (True, c2)
         \<and> access c2 b w3 = Inr (False, c3)
         \<and> write_backs c3 = (if w1 \<or> w2 then 1 else 0)
         \<and> lines c3 ! nat i = \<lparr>valid = True, tag = Some tb, dirty = w3\<rparr>
         \<and> access c1 b w3 = Inr (False, c3')
         \<and> write_backs c3' = (if w1 then 1 else 0)
         \<and> lines c3' ! nat i = \<lparr>valid = True, tag = Some tb, dirty = w3\<rparr>
         \<and> misses c3 = 2 \<and> hits c3 = 1 \<and> accesses c3 = 3"
proof -
  note wf0 = BaseCache_init_wf(1) [OF init nb]
  have wb0: "write_backs c0 = 0" by (rule BaseCache_init_wf(2) [OF init nb])
  have cnt0: "misses c0 = 0" "hits c0 = 0" "accesses c0 = 0"
    using init by (auto simp: BaseCache_init_def split: if_splits)
  have ib0: "0 \<le> i" "i < num_blocks c0"
    using get_index_and_tag_bounds [OF wf0 ia] by simp_all
  then have len: "nat i < length (lines c0)"
    using wf0 by (simp add: cache_wf_def)
  have inv0: "\<not> valid (lines c0 ! nat i)"
    using BaseCache_init_wf(3) [OF init nb ib0] .
  have l0: "lines c0 ! nat i = CacheLine_init"
    using init len by (auto simp: BaseCache_init_def split: if_splits)
  define c1 where "c1 = c0\<lparr>accesses := accesses c0 + 1, misses := misses c0 + 1,
      write_backs := write_backs c0
         + (if valid (lines c0 ! nat i) \<and> dirty (lines c0 ! nat i) then 1 else 0),
      lines := (lines c0)[nat i :=
         (lines c0 ! nat i)\<lparr>valid := True, tag := Some ta, dirty := w1\<rparr>]\<rparr>"
  have a1: "access c0 a w1 = Inr (False, c1)"
    unfolding c1_def using inv0 by (intro access_miss [OF wf0 ia]) simp
  have wf1: "cache_wf c1"
    using wf0 by (simp add: c1_def cache_wf_def)
  have ia1: "get_index_and_tag c1 a = Inr (i, ta)" and ib1: "get_index_and_tag c1 b = Inr (i, tb)"
    using ia ib get_index_and_tag_config [of c1 c0] by (simp_all add: c1_def)
  have l1: "lines c1 ! nat i = \<lparr>valid = True, tag = Some ta, dirty = w1\<rparr>"
    using len by (simp add: c1_def l0 CacheLine_init_def)
  have wb1: "write_backs c1 = 0" and len1: "nat i < length (lines c1)"
    and cnt1: "misses c1 = 1" "hits c1 = 0" "accesses c1 = 1"
    using inv0 wb0 len cnt0 by (simp_all add: c1_def)
  define c2 where "c2 = c1\<lparr>accesses := accesses c1 + 1, hits := hits c1 + 1,
      lines := (lines c1)[nat i := (if w2 then (lines c1 ! nat i)\<lparr>dirty := True\<rparr>
                                    else lines c1 ! nat i)]\<rparr>"
  have a2: "access c1 a w2 = Inr (True, c2)"
    unfolding c2_def by (intro access_hit [OF wf1 ia1]) (simp_all add: l1)
  have wf2: "cache_wf c2"
    using wf1 by (simp add: c2_def cache_wf_def)
  have ib2: "get_index_and_tag c2 b = Inr (i, tb)"
    using ib1 get_index_and_tag_config [of c2 c1] by (simp add: c2_def)
  have l2: "lines c2 ! nat i = \<lparr>valid = True, tag = Some ta, dirty = (w1 \<or> w2)\<rparr>"
    using len1 by (simp add: c2_def l1)
  have wb2: "write_backs c2 = 0" and len2: "nat i < length (lines c2)"
    and cnt2: "misses c2 = 1" "hits c2 = 1" "accesses c2 = 2"
    using wb1 len1 cnt1 by (simp_all add: c2_def)
  define c3 where "c3 = c2\<lparr>accesses := accesses c2 + 1, misses := misses c2 + 1,
      write_backs := write_backs c2
         + (if valid (lines c2 ! nat i) \<and> dirty (lines c2 ! nat i) then 1 else 0),
      lines := (lines c2)[nat i :=
         (lines c2 ! nat i)\<lparr>valid := True, tag := Some tb, dirty := w3\<rparr>]\<rparr>"
  have a3: "access c2 b w3 = Inr (False, c3)"
    unfolding c3_def using ne by (intro access_miss [OF wf2 ib2]) (simp add: l2)
  have r3: "write_backs c3 = (if w1 \<or> w2 then 1 else 0)"
    "lines c3 ! nat i = \<lparr>valid = True, tag = Some tb, dirty = w3\<rparr>"
    "misses c3 = 2" "hits c3 = 1" "accesses c3 = 3"
    using wb2 len2 cnt2 by (simp_all add: c3_def l2)
  define c3' where "c3' = c1\<lparr>accesses := accesses c1 + 1, misses := misses c1 + 1,
      write_backs := write_backs c1
         + (if valid (lines c1 ! nat i) \<and> dirty (lines c1 ! nat i) then 1 else 0),
      lines := (lines c1)[nat i :=
         (lines c1 ! nat i)\<lparr>valid := True, tag := Some tb, dirty := w3\<rparr>]\<rparr>"
  have a3': "access c1 b w3 = Inr (False, c3')"
    unfolding c3'_def using ne by (intro access_miss [OF wf1 ib1]) (simp add: l1)
  have r3': "write_backs c3' = (if w1 then 1 else 0)"
    "lines c3' ! nat i = \<lparr>valid = True, tag = Some tb, dirty = w3\<rparr>"
    using wb1 len1 by (simp_all add: c3'_def l1)
  from a1 a2 a3 r3 a3' r3' show ?thesis by blast
qed


theorem cache_miss_hit_evict_witness:
  "(\<exists>c0 c1 c2 c3. BaseCache_init 16 8 ''direct'' = Inr c0
       \<and> access c0 0 True = Inr (False, c1) \<and> access c1 0 False = Inr (True, c2)
       \<and> access c2 16 False = Inr (False, c3) \<and> write_backs c3 = 1)
   \<and> (\<exists>c0 c1 c2 c3. BaseCache_init 8 8 ''fully'' = Inr c0
       \<and> access c0 0 False = Inr (False, c1) \<and> access c1 0 False = Inr (True, c2)
       \<and> access c2 8 True = Inr (False, c3) \<and> write_backs c3 = 0)"
proof
  define c0 where "c0 = \<lparr>size_c = 16, block_size = 8, mapping = ''direct'', num_blocks = 2,
      lines = replicate 2 CacheLine_init, accesses = 0, hits = 0, misses = 0, write_backs = 0\<rparr>"
  have init: "BaseCache_init 16 8 ''direct'' = Inr c0"
    by (simp add: BaseCache_init_def c0_def)
  have nb: "0 < num_blocks c0" by (simp add: c0_def)
  have ia: "get_index_and_tag c0 0 = Inr (0, 0)"
    and ib: "get_index_and_tag c0 16 = Inr (0, 2)"
    by (simp_all add: get_index_and_tag_def c0_def)
  from cache_miss_hit_evict [OF init nb ia ib, of True False False] init
  show "\<exists>c0 c1 c2 c3. BaseCache_init 16 8 ''direct'' = Inr c0
       \<and> access c0 0 True = Inr (False, c1) \<and> access c1 0 False = Inr (True, c2)
       \<and> access c2 16 False = Inr (False, c3) \<and> write_backs c3 = 1"
    by auto
next
  define c0 where "c0 = \<lparr>size_c = 8, block_size = 8, mapping = ''fully'', num_blocks = 1,
      lines = replicate 1 CacheLine_init, accesses = 0, hits = 0, misses = 0, write_backs = 0\<rparr>"
  have init: "BaseCache_init 8 8 ''fully'' = Inr c0"
    by (simp add: BaseCache_init_def c0_def)
  have nb: "0 < num_blocks c0" by (simp add: c0_def)
  have ia: "get_index_and_tag c0 0 = Inr (0, 0)"
    and ib: "get_index_and_tag c0 8 = Inr (0, 1)"
    by (simp_all add: get_index_and_tag_def c0_def)
  from cache_miss_hit_evict [OF init nb ia ib, of False False True] init
  show "\<exists>c0 c1 c2 c3. BaseCache_init 8 8 ''fully'' = Inr c0
       \<and> access c0 0 False = Inr (False, c1) \<and> access c1 0 False = Inr (True, c2)
       \<and> access c2 8 True = Inr (False, c3) \<and> write_backs c3 = 0"
    by auto
qed

section \<open>Decoders\<close>

definition arm_mnemonics :: "string list" where
  "arm_mnemonics = [''MUL'', ''BX'',
     ''MOV_IMM'', ''ADD_IMM'', ''SUB_IMM'', ''CMP_IMM'', ''AND_IMM'', ''EOR_IMM'', ''ORR_IMM'',
     ''BIC_IMM'', ''MVN_IMM'', ''TST_IMM'', ''TEQ_IMM'',
     ''MOV'', ''ADD'', ''SUB'', ''CMP'', ''AND'', ''EOR'', ''ORR'', ''BIC'', ''MVN'', ''TST'', ''TEQ'',
     ''LDR'', ''STR'', ''BL'', ''B'', ''UNKNOWN'']"

definition thumb_mnemonics :: "string list" where
  "thumb_mnemonics = [''T_MOV_IMM'', ''T_CMP_IMM'', ''T_ADD_IMM'', ''T_SUB_IMM'',
     ''T_SUB'', ''T_ADD'', ''T_LSL'', ''T_LSR'', ''T_ASR'',
     ''T_AND'', ''T_EOR'', ''T_ADC'', ''T_SBC'', ''T_ROR'', ''T_TST'', ''T_NEG'', ''T_CMP'',
     ''T_CMN'', ''T_ORR'', ''T_MUL'', ''T_BIC'', ''T_MVN'',
     ''T_MOV_HI'', ''T_BX'', ''T_STR_REG'', ''T_STRH_REG'', ''T_STRB_REG'', ''T_LDR_PC'',
     ''T_LDR'', ''T_STR'', ''T_BCC'', ''T_B'', ''T_SWI'', ''T_UNKNOWN'']"

lemma and_mask_numeral:
  "(x::int) AND 1 = x mod 2" "(x::int) AND 3 = x mod 4" "(x::int) AND 7 = x mod 8"
  "(x::int) AND 15 = x mod 16" "(x::int) AND 31 = x mod 32" "(x::int) AND 63 = x mod 64"
proof -
  have m: "(x::int) AND mask n = x mod 2 ^ n" for n
    by (simp only: take_bit_eq_mask [symmetric] take_bit_eq_mod)
  show "(x::int) AND 1 = x mod 2" using m [of 1] by (simp add: mask_eq_exp_minus_1)
  show "(x::int) AND 3 = x mod 4" using m [of 2] by (simp add: mask_eq_exp_minus_1)
  show "(x::int) AND 7 = x mod 8" using m [of 3] by (simp add: mask_eq_exp_minus_1)
  show "(x::int) AND 15 = x mod 16" using m [of 4] by (simp add: mask_eq_exp_minus_1)
  show "(x::int) AND 31 = x mod 32" using m [of 5] by (simp add: mask_eq_exp_minus_1)
  show "(x::int) AND 63 = x mod 64" using m [of 6] by (simp add: mask_eq_exp_minus_1)
qed


lemma decode_instruction_address: "decode_instruction i a = decode_instruction i a'"
  by (simp add: decode_instruction_def)


lemma arm_literals:
  "''MUL'' \<in> set arm_mnemonics" "''BX'' \<in> set arm_mnemonics"
  "''MOV_IMM'' \<in> set arm_mnemonics" "''ADD_IMM'' \<in> set arm_mnemonics"
  "''SUB_IMM'' \<in> set arm_mnemonics" "''CMP_IMM'' \<in> set arm_mnemonics"
  "''AND_IMM'' \<in> set arm_mnemonics" "''EOR_IMM'' \<in> set arm_mnemonics"
  "''ORR_IMM'' \<in> set arm_mnemonics" "''BIC_IMM'' \<in> set arm_mnemonics"
  "''MVN_IMM'' \<in> set arm_mnemonics" "''TST_IMM'' \<in> set arm_mnemonics"
  "''TEQ_IMM'' \<in> set arm_mnemonics"
  "''MOV'' \<in> set arm_mnemonics" "''ADD'' \<in> set arm_mnemonics"
  "''SUB'' \<in> set arm_mnemonics" "''CMP'' \<in> set arm_mnemonics"
  "''AND'' \<in> set arm_mnemonics" "''EOR'' \<in> set arm_mnemonics"
  "''ORR'' \<in> set arm_mnemonics" "''BIC'' \<in> set arm_mnemonics"
  "''MVN'' \<in> set arm_mnemonics" "''TST'' \<in> set arm_mnemonics"
  "''TEQ'' \<in> set arm_mnemonics"
  "''LDR'' \<in> set arm_mnemonics" "''STR'' \<in> set arm_mnemonics"
  "''BL'' \<in> set arm_mnemonics" "''B'' \<in> set arm_mnemonics"
  "''UNKNOWN'' \<in> set arm_mnemonics"
  by (simp_all add: arm_mnemonics_def)

lemma decode_instruction_mnemonic: "fst (decode_instruction i a) \<in> set arm_mnemonics"
  by (simp add: decode_instruction_def Let_def arm_literals)

lemma py_index_in_range:
  "0 \<le> k \<Longrightarrow> k < int (length xs) \<Longrightarrow> py_index xs k = Inr (xs ! nat k)"
  by (simp add: py_index_def)

lemma format1_shift_type:
  assumes "drop_bit 13 i AND 7 = (0::int)" and "drop_bit 11 i AND 31 \<noteq> (3::int)"
  shows "drop_bit 11 i AND 3 \<noteq> (3::int)"
proof -
  have d: "drop_bit 13 i = drop_bit 11 i div 4"
    by (simp add: drop_bit_eq_div div_mult2_eq [symmetric])
  from assms show ?thesis
    unfolding d and_mask_numeral by presburger
qed

lemma nat_cases4:
  assumes "0 \<le> (k::int)" and "k < 4"
  shows "k = 0 \<or> k = 1 \<or> k = 2 \<or> k = 3"
  using assms by arith

lemma nat_cases16:
  assumes "0 \<le> (k::int)" and "k < 16"
  shows "k = 0 \<or> k = 1 \<or> k = 2 \<or> k = 3 \<or> k = 4 \<or> k = 5 \<or> k = 6 \<or> k = 7
       \<or> k = 8 \<or> k = 9 \<or> k = 10 \<or> k = 11 \<or> k = 12 \<or> k = 13 \<or> k = 14 \<or> k = 15"
  using assms by arith

lemma format3_lookup:
  "\<exists>m. py_index [''T_MOV_IMM'', ''T_CMP_IMM'', ''T_ADD_IMM'', ''T_SUB_IMM''] (x AND 3) = Inr m
       \<and> m \<in> set thumb_mnemonics"
proof -
  have "x AND 3 = 0 \<or> x AND 3 = 1 \<or> x AND 3 = 2 \<or> x AND 3 = 3"
    by (rule nat_cases4) (simp_all add: and_mask_numeral)
  then show ?thesis
    by (elim disjE) (simp_all add: py_index_def thumb_mnemonics_def)
qed

lemma format5_lookup:
  "\<exists>m. py_index [''T_ADD'', ''T_CMP'', ''T_MOV_HI'', ''T_BX''] (x AND 3) = Inr m
       \<and> m \<in> set thumb_mnemonics"
proof -
  have "x AND 3 = 0 \<or> x AND 3 = 1 \<or> x AND 3 = 2 \<or> x AND 3 = 3"
    by (rule nat_cases4) (simp_all add: and_mask_numeral)
  then show ?thesis
    by (elim disjE) (simp_all add: py_index_def thumb_mnemonics_def)
qed

lemma format1_lookup:
  assumes "x AND 3 \<noteq> 3"
  shows "\<exists>nm. py_index [''LSL'', ''LSR'', ''ASR''] (x AND 3) = Inr nm
       \<and> ''T_'' @ nm \<in> set thumb_mnemonics"
proof -
  have "x AND 3 = 0 \<or> x AND 3 = 1 \<or> x AND 3 = 2 \<or> x AND 3 = 3"
    by (rule nat_cases4) (simp_all add: and_mask_numeral)
  with assms show ?thesis
    by (elim disjE) (simp_all add: py_index_def thumb_mnemonics_def)
qed

lemma format4_lookup:
  "\<exists>nm. py_index [''AND'', ''EOR'', ''LSL'', ''LSR'', ''ASR'', ''ADC'', ''SBC'', ''ROR'',
                    ''TST'', ''NEG'', ''CMP'', ''CMN'', ''ORR'', ''MUL'', ''BIC'', ''MVN'']
                   (x AND 15) = Inr nm
       \<and> ''T_'' @ nm \<in> set thumb_mnemonics"
proof -
  have "x AND 15 = 0 \<or> x AND 15 = 1 \<or> x AND 15 = 2 \<or> x AND 15 = 3 \<or> x AND 15 = 4
      \<or> x AND 15 = 5 \<or> x AND 15 = 6 \<or> x AND 15 = 7 \<or> x AND 15 = 8 \<or> x AND 15 = 9
      \<or> x AND 15 = 10 \<or> x AND 15 = 11 \<or> x AND 15 = 12 \<or> x AND 15 = 13 \<or> x AND 15 = 14
      \<or> x AND 15 = 15"
    by (rule nat_cases16) (simp_all add: and_mask_numeral)
  then show ?thesis
    by (elim disjE) (simp_all add: py_index_def thumb_mnemonics_def)
qed


definition decodes_ok :: "py_error + (string \<times> operands) \<Rightarrow> bool" where
  "decodes_ok r = (\<exists>m ops. r = Inr (m, ops) \<and> m \<in> set thumb_mnemonics)"

lemma decodes_ok_Inr: "m \<in> set thumb_mnemonics \<Longrightarrow> decodes_ok (Inr (m, ops))"
  by (simp add: decodes_ok_def)

lemma decodes_ok_bind:
  assumes "\<exists>m. t = Inr m \<and> f m \<in> set thumb_mnemonics"
  shows "decodes_ok (bindE t (\<lambda>m. Inr (f m, ops)))"
  using assms by (auto simp: decodes_ok_def)

lemma thumb_literals:
  "''T_SUB_IMM'' \<in> set thumb_mnemonics" "''T_ADD_IMM'' \<in> set thumb_mnemonics"
  "''T_SUB'' \<in> set thumb_mnemonics" "''T_ADD'' \<in> set thumb_mnemonics"
  "''T_STR_REG'' \<in> set thumb_mnemonics" "''T_STRH_REG'' \<in> set thumb_mnemonics"
  "''T_STRB_REG'' \<in> set thumb_mnemonics" "''T_LDR_PC'' \<in> set thumb_mnemonics"
  "''T_LDR'' \<in> set thumb_mnemonics" "''T_STR'' \<in> set thumb_mnemonics"
  "''T_BCC'' \<in> set thumb_mnemonics" "''T_B'' \<in> set thumb_mnemonics"
  "''T_SWI'' \<in> set thumb_mnemonics" "''T_UNKNOWN'' \<in> set thumb_mnemonics"
  by (simp_all add: thumb_mnemonics_def)

lemma decode_thumb_instruction_ok: "decodes_ok (decode_thumb_instruction i a)"
proof -
  consider (f3) "drop_bit 13 i AND 7 = (1::int)"
    | (f2) "drop_bit 13 i AND 7 \<noteq> (1::int)" "drop_bit 11 i AND 31 = (3::int)"
    | (f1) "drop_bit 13 i AND 7 \<noteq> (1::int)" "drop_bit 11 i AND 31 \<noteq> (3::int)"
           "drop_bit 13 i AND 7 = (0::int)"
    | (f4) "drop_bit 13 i AND 7 \<noteq> (1::int)" "drop_bit 11 i AND 31 \<noteq> (3::int)"
           "drop_bit 13 i AND 7 \<noteq> (0::int)" "drop_bit 10 i AND 63 = (16::int)"
    | (f5) "drop_bit 13 i AND 7 \<noteq> (1::int)" "drop_bit 11 i AND 31 \<noteq> (3::int)"
           "drop_bit 13 i AND 7 \<noteq> (0::int)" "drop_bit 10 i AND 63 \<noteq> (16::int)"
           "drop_bit 10 i AND 63 = (17::int)"
    | (f678) "drop_bit 13 i AND 7 \<noteq> (1::int)" "drop_bit 11 i AND 31 \<noteq> (3::int)"
           "drop_bit 13 i AND 7 \<noteq> (0::int)" "drop_bit 10 i AND 63 \<noteq> (16::int)"
           "drop_bit 10 i AND 63 \<noteq> (17::int)" "drop_bit 13 i AND 7 = (2::int)"
    | (rest) "drop_bit 13 i AND 7 \<noteq> (1::int)" "drop_bit 11 i AND 31 \<noteq> (3::int)"
           "drop_bit 13 i AND 7 \<noteq> (0::int)" "drop_bit 10 i AND 63 \<noteq> (16::int)"
           "drop_bit 10 i AND 63 \<noteq> (17::int)" "drop_bit 13 i AND 7 \<noteq> (2::int)"
    by blast
  then show ?thesis
  proof cases
    case f3
    show ?thesis
      unfolding decode_thumb_instruction_def Let_def
      by (simp only: f3 if_True simp_thms) (rule decodes_ok_bind, rule format3_lookup)
  next
    case f2
    show ?thesis
      unfolding decode_thumb_instruction_def Let_def
      by (simp only: f2 if_True if_False simp_thms rel_simps) (simp add: decodes_ok_Inr thumb_literals)
  next
    case f1
    have "drop_bit 11 i AND 3 \<noteq> (3::int)"
      using f1(3) f1(2) by (rule format1_shift_type)
    then show ?thesis
      unfolding decode_thumb_instruction_def Let_def
      by (simp only: f1 if_True if_False simp_thms rel_simps) (rule decodes_ok_bind, rule format1_lookup)
  next
    case f4
    show ?thesis
      unfolding decode_thumb_instruction_def Let_def
      by (simp only: f4 if_True if_False simp_thms rel_simps) (rule decodes_ok_bind, rule format4_lookup)
  next
    case f5
    show ?thesis
      unfolding decode_thumb_instruction_def Let_def
      by (simp only: f5 if_True if_False simp_thms rel_simps) (rule decodes_ok_bind, rule format5_lookup)
  next
    case f678
    have "drop_bit 11 i AND 3 = 0 \<or> drop_bit 11 i AND 3 = 1
          \<or> drop_bit 11 i AND 3 = 2 \<or> drop_bit 11 i AND 3 = (3::int)"
      by (rule nat_cases4) (simp_all add: and_mask_numeral)
    then show ?thesis
      unfolding decode_thumb_instruction_def Let_def
      by (simp only: f678 if_True if_False simp_thms rel_simps) (auto simp: decodes_ok_Inr thumb_literals)
  next
    case rest
    show ?thesis
      unfolding decode_thumb_instruction_def Let_def
      by (simp only: rest if_True if_False simp_thms rel_simps) (simp add: decodes_ok_Inr thumb_literals)
  qed
qed


text \<open>
  Claim C8. Both decoders are total and pure. The ARM decoder returns, for every
  instruction value, a mnemonic of the fixed set \<open>arm_mnemonics\<close> (with \<open>UNKNOWN\<close>) and an
  operand dictionary; it contains no operation that can raise. The Thumb decoder returns,
  for every instruction value, \<open>Inr\<close> of a mnemonic of \<open>thumb_mnemonics\<close> (with
  \<open>T_UNKNOWN\<close>) and an operand dictionary: no table lookup raises IndexError, in
  particular not the three-entry shift table of format 1, whose index 3 is taken by the
  earlier format 2 test, and the cascade never falls through to \<open>None\<close>. The results are
  functions of the instruction value alone (the address argument is ignored), so equal
  inputs give equal outputs. The statement holds for all integers, hence for every 32-bit
  and every 16-bit value.
\<close>

theorem decoders_total:
  "fst (decode_instruction i a) \<in> set arm_mnemonics
   \<and> decode_instruction i a = decode_instruction i a'
   \<and> (\<exists>m ops. decode_thumb_instruction t a = Inr (m, ops) \<and> m \<in> set thumb_mnemonics)
   \<and> decode_thumb_instruction t a = decode_thumb_instruction t a'"
proof -
  have "decodes_ok (decode_thumb_instruction t a)"
    by (rule decode_thumb_instruction_ok)
  then have thumb: "\<exists>m ops. decode_thumb_instruction t a = Inr (m, ops) \<and> m \<in> set thumb_mnemonics"
    by (simp add: decodes_ok_def)
  have pure: "decode_thumb_instruction t a = decode_thumb_instruction t a'"
    by (simp add: decode_thumb_instruction_def)
  from decode_instruction_mnemonic [of i a] decode_instruction_address [of i a a'] thumb pure
  show ?thesis by blast
qed

theorem decoders_total_witness:
  "decode_instruction 0xE0810002 0 = (''ADD'', [(''rd'', 0), (''rn'', 1), (''rm'', 2)])
   \<and> ''ADD'' \<in> set arm_mnemonics
   \<and> decode_instruction 0xFFFFFFFF 0 = (''UNKNOWN'', [])
   \<and> decode_thumb_instruction 0x0000 0
       = Inr (''T_LSL'', [(''rd'', 0), (''rs'', 0), (''offset'', 0)])
   \<and> decode_thumb_instruction 0x1800 0
       = Inr (''T_ADD'', [(''rd'', 0), (''rs'', 0), (''rn'', 0)])
   \<and> decode_thumb_instruction 0xFFFF 0 = Inr (''T_UNKNOWN'', [(''raw'', 0xFFFF)])"
proof -
  have "decode_instruction 0xE0810002 0 = (''ADD'', [(''rd'', 0), (''rn'', 1), (''rm'', 2)])"
    by (simp add: decode_instruction_def)
  moreover have "decode_instruction 0xFFFFFFFF 0 = (''UNKNOWN'', [])"
    by (simp add: decode_instruction_def)
  moreover have "decode_thumb_instruction 0x0000 0
       = Inr (''T_LSL'', [(''rd'', 0), (''rs'', 0), (''offset'', 0)])"
    by (simp add: decode_thumb_instruction_def py_index_def)
  moreover have "decode_thumb_instruction 0x1800 0
       = Inr (''T_ADD'', [(''rd'', 0), (''rs'', 0), (''rn'', 0)])"
    by (simp add: decode_thumb_instruction_def)
  moreover have "decode_thumb_instruction 0xFFFF 0 = Inr (''T_UNKNOWN'', [(''raw'', 0xFFFF)])"
    by (simp add: decode_thumb_instruction_def)
  ultimately show ?thesis
    using decoders_total [of "0xE0810002" 0 0 0 ] by simp
qed

section \<open>ARM branches\<close>

text \<open>The value of a \<open>w\<close>-bit field read as a two's complement number.\<close>

definition sign_extend :: "nat \<Rightarrow> int \<Rightarrow> int" where
  "sign_extend w raw = (if raw \<ge> 2 ^ (w - 1) then raw - 2 ^ w else raw)"

lemma and_exp_test: "(x::int) AND 2 ^ n \<noteq> 0 \<longleftrightarrow> odd (x div 2 ^ n)"
  by (simp add: and_exp_eq_0_iff_not_bit bit_iff_odd)

lemma bit23_test:
  assumes "0 \<le> (x::int)" and "x < 0x1000000"
  shows "x AND 0x800000 \<noteq> 0 \<longleftrightarrow> x \<ge> 0x800000"
proof -
  have t: "x AND 0x800000 \<noteq> 0 \<longleftrightarrow> odd (x div 0x800000)"
    using and_exp_test [of x 23] by simp
  show ?thesis
  proof (cases "x \<ge> 0x800000")
    case True
    have "0x800000 div 0x800000 \<le> x div (0x800000::int)"
      using True by (intro zdiv_mono1) simp_all
    moreover have "x div 0x800000 \<le> 0xFFFFFF div (0x800000::int)"
      using assms by (intro zdiv_mono1) simp_all
    ultimately have "x div 0x800000 = 1" by simp
    with True t show ?thesis by simp
  next
    case False
    then have "x div 0x800000 = 0"
      using assms by (simp add: div_pos_pos_trivial)
    with False t show ?thesis by simp
  qed
qed

lemma and_FFFFFF_range: "0 \<le> (i::int) AND 0xFFFFFF" "(i::int) AND 0xFFFFFF < 0x1000000"
proof -
  have "(i::int) AND mask 24 = i mod 2 ^ 24"
    by (simp only: take_bit_eq_mask [symmetric] take_bit_eq_mod)
  then have "i AND 0xFFFFFF = i mod 0x1000000"
    by (simp add: mask_eq_exp_minus_1)
  then show "0 \<le> (i::int) AND 0xFFFFFF" "(i::int) AND 0xFFFFFF < 0x1000000"
    by simp_all
qed

lemma decoder_sign_extension:
  "(if (i AND 0xFFFFFF) AND 0x800000 \<noteq> 0 then (i AND 0xFFFFFF) - 0x1000000 else i AND 0xFFFFFF)
     = sign_extend 24 (i AND 0xFFFFFF)"
  using bit23_test [OF and_FFFFFF_range, of i] by (simp add: sign_extend_def)

lemma negative_high_bits:
  assumes "- (2 ^ 24) \<le> (x::int)" and "x < 0"
  shows "x OR 0xFF000000 = x"
proof (rule bit_eqI)
  fix n :: nat
  have m: "(0xFF000000::int) = push_bit 24 (mask 8)"
    by (simp add: push_bit_eq_mult mask_eq_exp_minus_1)
  have nx: "0 \<le> NOT x" "NOT x < 2 ^ 24"
    using assms by (simp_all add: not_int_def)
  then have "take_bit 24 (NOT x) = NOT x"
    by (simp add: take_bit_int_eq_self)
  then have "k < 24" if "bit (NOT x) k" for k
    using that by (metis bit_take_bit_iff)
  then have hi: "bit x k" if "24 \<le> k" for k
    using that by (fastforce simp: bit_not_int_iff)
  show "bit (x OR 0xFF000000) n \<longleftrightarrow> bit x n"
    unfolding m by (auto simp: bit_simps hi)
qed

lemma executor_sign_extension:
  "(if sign_extend 24 (i AND 0xFFFFFF) AND 0x800000 \<noteq> 0
    then sign_extend 24 (i AND 0xFFFFFF) OR 0xFF000000
    else sign_extend 24 (i AND 0xFFFFFF))
   = sign_extend 24 (i AND 0xFFFFFF)"
proof (cases "i AND 0xFFFFFF \<ge> 0x800000")
  case True
  then have "- (2 ^ 24) \<le> sign_extend 24 (i AND 0xFFFFFF)" "sign_extend 24 (i AND 0xFFFFFF) < 0"
    using and_FFFFFF_range [of i] by (simp_all add: sign_extend_def)
  then show ?thesis by (simp add: negative_high_bits)
next
  case False
  then have "sign_extend 24 (i AND 0xFFFFFF) = i AND 0xFFFFFF"
    by (simp add: sign_extend_def)
  moreover have "\<not> (i AND 0xFFFFFF) AND 0x800000 \<noteq> 0"
    using bit23_test [OF and_FFFFFF_range, of i] False by simp
  ultimately show ?thesis by simp
qed

lemma decode_B:
  assumes "fst (decode_instruction i a) = ''B''"
  shows "decode_instruction i a = (''B'', [(''offset'', sign_extend 24 (i AND 0xFFFFFF))])"
  using assms unfolding decode_instruction_def Let_def decoder_sign_extension
  by (simp split: if_splits)

lemma decode_BL:
  assumes "fst (decode_instruction i a) = ''BL''"
  shows "decode_instruction i a = (''BL'', [(''offset'', sign_extend 24 (i AND 0xFFFFFF))])"
  using assms unfolding decode_instruction_def Let_def decoder_sign_extension
  by (simp split: if_splits)


lemma reg_get_ok:
  "0 \<le> i \<Longrightarrow> i < int (length (registers s)) \<Longrightarrow> reg_get s i = Inr (registers s ! nat i)"
  by (simp add: reg_get_def py_index_def)

lemma reg_set_ok:
  "0 \<le> i \<Longrightarrow> i < int (length (registers s))
     \<Longrightarrow> reg_set s i v = Inr (s\<lparr>registers := (registers s)[nat i := v]\<rparr>)"
  by (simp add: reg_set_def py_store_def)

lemma execute_arm_branch_eq:
  assumes "length (registers s) = 16"
  shows "execute_arm_branch s [(''offset'', sign_extend 24 (i AND 0xFFFFFF))]
     = Inr (s\<lparr>registers := (registers s)[15 :=
          (registers s ! 15 + 8 + push_bit 2 (sign_extend 24 (i AND 0xFFFFFF))) mod 2 ^ 32]\<rparr>)"
  unfolding execute_arm_branch_def Let_def
  by (simp add: op_get_def executor_sign_extension PC_def reg_get_ok reg_set_ok assms
        and_FFFFFFFF)

lemma execute_arm_branch_link_eq:
  assumes "length (registers s) = 16"
  shows "execute_arm_branch_link s [(''offset'', sign_extend 24 (i AND 0xFFFFFF))]
     = Inr (s\<lparr>registers := (registers s)[14 := registers s ! 15 + 4, 15 :=
          (registers s ! 15 + 8 + push_bit 2 (sign_extend 24 (i AND 0xFFFFFF))) mod 2 ^ 32]\<rparr>)"
  unfolding execute_arm_branch_link_def Let_def
  by (simp add: op_get_def executor_sign_extension PC_def LR_def reg_get_ok reg_set_ok assms
        and_FFFFFFFF)

lemma execute_arm_instruction_B:
  assumes len: "length (registers s) = 16"
    and b: "fst (decode_instruction instr (registers s ! 15)) = ''B''"
  shows "execute_arm_instruction s instr
      = Inr (s\<lparr>registers := (registers s)[15 :=
          (registers s ! 15 + 8 + push_bit 2 (sign_extend 24 (instr AND 0xFFFFFF)))
            mod 2 ^ 32]\<rparr>)"
proof -
  from b have d: "decode_instruction instr (registers s ! 15)
      = (''B'', [(''offset'', sign_extend 24 (instr AND 0xFFFFFF))])"
    by (rule decode_B)
  show ?thesis
    unfolding execute_arm_instruction_def enhanced_decode_instruction_def
    by (simp add: PC_def reg_get_ok len d execute_arm_branch_eq [OF len])
qed

lemma execute_arm_instruction_BL:
  assumes len: "length (registers s) = 16"
    and b: "fst (decode_instruction instr (registers s ! 15)) = ''BL''"
  shows "execute_arm_instruction s instr
      = Inr (s\<lparr>registers := (registers s)[14 := registers s ! 15 + 4, 15 :=
          (registers s ! 15 + 8 + push_bit 2 (sign_extend 24 (instr AND 0xFFFFFF)))
            mod 2 ^ 32]\<rparr>)"
proof -
  from b have d: "decode_instruction instr (registers s ! 15)
      = (''BL'', [(''offset'', sign_extend 24 (instr AND 0xFFFFFF))])"
    by (rule decode_BL)
  show ?thesis
    unfolding execute_arm_instruction_def enhanced_decode_instruction_def
    by (simp add: PC_def reg_get_ok len d execute_arm_branch_link_eq [OF len])
qed

text \<open>
  Claim C6. For every ARM B instruction the handler sets
  PC = (PC at fetch + 8 + (sign-extended 24-bit offset field << 2)) mod 2^32 and changes
  nothing else; BL computes the same target and also sets LR = PC at fetch + 4 (not
  reduced). With the PC at 0 and a zero offset field, B yields PC = 8 and BL yields
  LR = 4 and PC = 8.
\<close>

theorem arm_branch_target:
  assumes len: "length (registers s) = 16"
  shows "(fst (decode_instruction instr (registers s ! 15)) = ''B'' \<longrightarrow>
           execute_arm_instruction s instr
             = Inr (s\<lparr>registers := (registers s)[15 :=
                 (registers s ! 15 + 8 + push_bit 2 (sign_extend 24 (instr AND 0xFFFFFF)))
                   mod 2 ^ 32]\<rparr>))
       \<and> (fst (decode_instruction instr (registers s ! 15)) = ''BL'' \<longrightarrow>
           execute_arm_instruction s instr
             = Inr (s\<lparr>registers := (registers s)[14 := registers s ! 15 + 4, 15 :=
                 (registers s ! 15 + 8 + push_bit 2 (sign_extend 24 (instr AND 0xFFFFFF)))
                   mod 2 ^ 32]\<rparr>))"
  using execute_arm_instruction_B [OF len] execute_arm_instruction_BL [OF len] by blast

lemma init_registers:
  "registers (EnhancedARMExecutor_init c)
     = [0, 0, 0, 0, 0, 0, 0, 0, 0, 0, 0, 0, 0, 0x1000, 0, 0]"
  by (simp add: EnhancedARMExecutor_init_def SP_def numeral_eq_Suc)

theorem arm_branch_target_witness:
  "execute_arm_instruction (EnhancedARMExecutor_init None) 0xEA000000
     = Inr ((EnhancedARMExecutor_init None)
             \<lparr>registers := [0, 0, 0, 0, 0, 0, 0, 0, 0, 0, 0, 0, 0, 0x1000, 0, 8]\<rparr>)
   \<and> execute_arm_instruction (EnhancedARMExecutor_init None) 0xEB000000
     = Inr ((EnhancedARMExecutor_init None)
             \<lparr>registers := [0, 0, 0, 0, 0, 0, 0, 0, 0, 0, 0, 0, 0, 0x1000, 4, 8]\<rparr>)
   \<and> execute_arm_instruction (EnhancedARMExecutor_init None) 0xEAFFFFFD
     = Inr ((EnhancedARMExecutor_init None)
             \<lparr>registers := [0, 0, 0, 0, 0, 0, 0, 0, 0, 0, 0, 0, 0, 0x1000, 0, 0xFFFFFFFC]\<rparr>)"
proof -
  have len: "length (registers (EnhancedARMExecutor_init None)) = 16"
    by (simp add: init_registers)
  have b: "fst (decode_instruction 0xEA000000 (registers (EnhancedARMExecutor_init None) ! 15)) = ''B''"
    "fst (decode_instruction 0xEAFFFFFD (registers (EnhancedARMExecutor_init None) ! 15)) = ''B''"
    and bl: "fst (decode_instruction 0xEB000000 (registers (EnhancedARMExecutor_init None) ! 15)) = ''BL''"
    by (simp_all add: decode_instruction_def)
  show ?thesis
    using arm_branch_target [OF len, of "0xEA000000"] arm_branch_target [OF len, of "0xEB000000"]
      arm_branch_target [OF len, of "0xEAFFFFFD"] b bl
    by (simp add: init_registers sign_extend_def)
qed

section \<open>Thumb branches\<close>

lemma py_index_mem: "py_index xs k = Inr m \<Longrightarrow> m \<in> set xs"
  by (auto simp: py_index_def Let_def split: if_splits)


lemma top_bit_test:
  assumes "0 \<le> (x::int)" and "x < 2 * 2 ^ n"
  shows "x AND 2 ^ n \<noteq> 0 \<longleftrightarrow> 2 ^ n \<le> x"
proof -
  have t: "x AND 2 ^ n \<noteq> 0 \<longleftrightarrow> odd (x div 2 ^ n)"
    by (rule and_exp_test)
  show ?thesis
  proof (cases "2 ^ n \<le> x")
    case True
    have "(x - 2 ^ n) div 2 ^ n = 0"
      using True assms by (intro div_pos_pos_trivial) simp_all
    moreover have "((x - 2 ^ n) + 2 ^ n) div 2 ^ n = (x - 2 ^ n) div 2 ^ n + 1"
      by (rule div_add_self2) simp
    ultimately have "x div 2 ^ n = 1" by simp
    with True t show ?thesis by simp
  next
    case False
    then have "x div 2 ^ n = 0"
      using assms by (simp add: div_pos_pos_trivial)
    with False t show ?thesis by simp
  qed
qed

lemma thumb_sign_extension:
  "(if (i AND 0x7FF) AND 0x400 \<noteq> 0 then (i AND 0x7FF) - 0x800 else i AND 0x7FF)
      = sign_extend 11 (i AND 0x7FF)"
  "(if (i AND 0xFF) AND 0x80 \<noteq> 0 then (i AND 0xFF) - 0x100 else i AND 0xFF)
      = sign_extend 8 (i AND 0xFF)"
proof -
  have r11: "i AND 0x7FF = i mod 0x800"
    using take_bit_eq_mask [of 11 i] by (simp add: take_bit_eq_mod mask_eq_exp_minus_1)
  have r8: "i AND 0xFF = i mod 0x100"
    using take_bit_eq_mask [of 8 i] by (simp add: take_bit_eq_mod mask_eq_exp_minus_1)
  show "(if (i AND 0x7FF) AND 0x400 \<noteq> 0 then (i AND 0x7FF) - 0x800 else i AND 0x7FF)
      = sign_extend 11 (i AND 0x7FF)"
    using top_bit_test [of "i AND 0x7FF" 10] by (simp add: r11 sign_extend_def)
  show "(if (i AND 0xFF) AND 0x80 \<noteq> 0 then (i AND 0xFF) - 0x100 else i AND 0xFF)
      = sign_extend 8 (i AND 0xFF)"
    using top_bit_test [of "i AND 0xFF" 7] by (simp add: r8 sign_extend_def)
qed

text \<open>The mnemonics of formats 9, 16 and 18 come from the tail of the cascade only: every
  earlier format returns a name of its own table.\<close>

lemma thumb_tail:
  assumes d: "decode_thumb_instruction i a = Inr (m, ops)"
    and m: "m = ''T_B'' \<or> m = ''T_BCC'' \<or> m = ''T_LDR'' \<or> m = ''T_STR''"
  shows "m = ''T_B'' \<longrightarrow> ops = [(''offset'', sign_extend 11 (i AND 0x7FF) * 2)]"
    and "m = ''T_BCC'' \<longrightarrow> ops = [(''condition'', drop_bit 8 i AND 15),
                                       (''offset'', sign_extend 8 (i AND 0xFF) * 2)]"
    and "m = ''T_LDR'' \<or> m = ''T_STR'' \<longrightarrow>
           ops = [(''rd'', i AND 7), (''rb'', drop_bit 3 i AND 7),
                  (''offset'', drop_bit 6 i AND 31)]"
proof -
  have s11: "(if (i AND 0x7FF) AND 0x400 \<noteq> 0 then (i AND 0x7FF) - 0x800 else i AND 0x7FF)
      = sign_extend 11 (i AND 0x7FF)"
    by (rule thumb_sign_extension)
  have s8: "(if (i AND 0xFF) AND 0x80 \<noteq> 0 then (i AND 0xFF) - 0x100 else i AND 0xFF)
      = sign_extend 8 (i AND 0xFF)"
    by (rule thumb_sign_extension)
  consider (f3) "drop_bit 13 i AND 7 = (1::int)"
    | (f2) "drop_bit 13 i AND 7 \<noteq> (1::int)" "drop_bit 11 i AND 31 = (3::int)"
    | (f1) "drop_bit 13 i AND 7 \<noteq> (1::int)" "drop_bit 11 i AND 31 \<noteq> (3::int)"
           "drop_bit 13 i AND 7 = (0::int)"
    | (f4) "drop_bit 13 i AND 7 \<noteq> (1::int)" "drop_bit 11 i AND 31 \<noteq> (3::int)"
           "drop_bit 13 i AND 7 \<noteq> (0::int)" "drop_bit 10 i AND 63 = (16::int)"
    | (f5) "drop_bit 13 i AND 7 \<noteq> (1::int)" "drop_bit 11 i AND 31 \<noteq> (3::int)"
           "drop_bit 13 i AND 7 \<noteq> (0::int)" "drop_bit 10 i AND 63 \<noteq> (16::int)"
           "drop_bit 10 i AND 63 = (17::int)"
    | (f678) "drop_bit 13 i AND 7 \<noteq> (1::int)" "drop_bit 11 i AND 31 \<noteq> (3::int)"
           "drop_bit 13 i AND 7 \<noteq> (0::int)" "drop_bit 10 i AND 63 \<noteq> (16::int)"
           "drop_bit 10 i AND 63 \<noteq> (17::int)" "drop_bit 13 i AND 7 = (2::int)"
    | (rest) "drop_bit 13 i AND 7 \<noteq> (1::int)" "drop_bit 11 i AND 31 \<noteq> (3::int)"
           "drop_bit 13 i AND 7 \<noteq> (0::int)" "drop_bit 10 i AND 63 \<noteq> (16::int)"
           "drop_bit 10 i AND 63 \<noteq> (17::int)" "drop_bit 13 i AND 7 \<noteq> (2::int)"
    by blast
  then have "(m = ''T_B'' \<longrightarrow> ops = [(''offset'', sign_extend 11 (i AND 0x7FF) * 2)])
    \<and> (m = ''T_BCC'' \<longrightarrow> ops = [(''condition'', drop_bit 8 i AND 15),
                                       (''offset'', sign_extend 8 (i AND 0xFF) * 2)])
    \<and> (m = ''T_LDR'' \<or> m = ''T_STR'' \<longrightarrow>
           ops = [(''rd'', i AND 7), (''rb'', drop_bit 3 i AND 7),
                  (''offset'', drop_bit 6 i AND 31)])"
  proof cases
    case f3
    from d obtain m' where "py_index [''T_MOV_IMM'', ''T_CMP_IMM'', ''T_ADD_IMM'', ''T_SUB_IMM'']
        (drop_bit 11 i AND 3) = Inr m'" and "m = m'"
      unfolding decode_thumb_instruction_def Let_def
      by (simp only: f3 if_True simp_thms) (auto elim!: bindE_InrE)
    then have "m \<in> set [''T_MOV_IMM'', ''T_CMP_IMM'', ''T_ADD_IMM'', ''T_SUB_IMM'']"
      by (auto dest: py_index_mem)
    with m show ?thesis by auto
  next
    case f2
    from d have False
      unfolding decode_thumb_instruction_def Let_def
      using m by (simp only: f2 if_True if_False simp_thms rel_simps) (auto split: if_splits)
    then show ?thesis ..
  next
    case f1
    from d obtain nm where "py_index [''LSL'', ''LSR'', ''ASR''] (drop_bit 11 i AND 3) = Inr nm"
      and "m = ''T_'' @ nm"
      unfolding decode_thumb_instruction_def Let_def
      by (simp only: f1 if_True if_False simp_thms rel_simps) (auto elim!: bindE_InrE)
    then have "nm \<in> set [''LSL'', ''LSR'', ''ASR'']" "m = ''T_'' @ nm"
      by (auto dest: py_index_mem)
    with m show ?thesis by auto
  next
    case f4
    from d obtain nm where "py_index [''AND'', ''EOR'', ''LSL'', ''LSR'', ''ASR'', ''ADC'', ''SBC'',
         ''ROR'', ''TST'', ''NEG'', ''CMP'', ''CMN'', ''ORR'', ''MUL'', ''BIC'', ''MVN'']
        (drop_bit 6 i AND 15) = Inr nm"
      and "m = ''T_'' @ nm"
      unfolding decode_thumb_instruction_def Let_def
      by (simp only: f4 if_True if_False simp_thms rel_simps) (auto elim!: bindE_InrE)
    then have "nm \<in> set [''AND'', ''EOR'', ''LSL'', ''LSR'', ''ASR'', ''ADC'', ''SBC'',
         ''ROR'', ''TST'', ''NEG'', ''CMP'', ''CMN'', ''ORR'', ''MUL'', ''BIC'', ''MVN'']"
      "m = ''T_'' @ nm"
      by (auto dest: py_index_mem)
    with m show ?thesis by auto
  next
    case f5
    from d obtain m' where "py_index [''T_ADD'', ''T_CMP'', ''T_MOV_HI'', ''T_BX'']
        (drop_bit 8 i AND 3) = Inr m'" and "m = m'"
      unfolding decode_thumb_instruction_def Let_def
      by (simp only: f5 if_True if_False simp_thms rel_simps) (auto elim!: bindE_InrE)
    then have "m \<in> set [''T_ADD'', ''T_CMP'', ''T_MOV_HI'', ''T_BX'']"
      by (auto dest: py_index_mem)
    with m show ?thesis by auto
  next
    case f678
    from d have False
      unfolding decode_thumb_instruction_def Let_def
      using m by (simp only: f678 if_True if_False simp_thms rel_simps) (auto split: if_splits)
    then show ?thesis ..
  next
    case rest
    from d show ?thesis
      unfolding decode_thumb_instruction_def Let_def s11 s8
      by (simp only: rest if_False simp_thms rel_simps) (auto split: if_splits)
  qed
  then show "m = ''T_B'' \<longrightarrow> ops = [(''offset'', sign_extend 11 (i AND 0x7FF) * 2)]"
    and "m = ''T_BCC'' \<longrightarrow> ops = [(''condition'', drop_bit 8 i AND 15),
                                       (''offset'', sign_extend 8 (i AND 0xFF) * 2)]"
    and "m = ''T_LDR'' \<or> m = ''T_STR'' \<longrightarrow>
           ops = [(''rd'', i AND 7), (''rb'', drop_bit 3 i AND 7),
                  (''offset'', drop_bit 6 i AND 31)]"
    by blast+
qed


lemma execute_thumb_branch_eq:
  assumes "length (registers s) = 16"
  shows "execute_thumb_branch s [(''offset'', off)]
     = Inr (s\<lparr>registers := (registers s)[15 :=
          (registers s ! 15 + 4 + push_bit 1 off) mod 2 ^ 32]\<rparr>)"
  unfolding execute_thumb_branch_def Let_def
  by (simp add: op_get_def PC_def reg_get_ok reg_set_ok assms and_FFFFFFFF)

lemma execute_thumb_branch_conditional_eq:
  assumes "length (registers s) = 16"
  shows "execute_thumb_branch_conditional s [(''condition'', c), (''offset'', off)]
     = (if check_condition s c
        then Inr (s\<lparr>registers := (registers s)[15 :=
               (registers s ! 15 + 4 + push_bit 1 off) mod 2 ^ 32]\<rparr>)
        else Inr s)"
  unfolding execute_thumb_branch_conditional_def Let_def
  by (simp add: op_get_def PC_def reg_get_ok reg_set_ok assms and_FFFFFFFF)

lemma execute_thumb_instruction_T_B:
  assumes len: "length (registers s) = 16"
    and d: "decode_thumb_instruction instr 0 = Inr (''T_B'', ops)"
  shows "ops = [(''offset'', 2 * sign_extend 11 (instr AND 0x7FF))]"
    and "execute_thumb_instruction s instr
      = Inr (s\<lparr>registers := (registers s)[15 :=
          (registers s ! 15 + 4 + push_bit 1 (2 * sign_extend 11 (instr AND 0x7FF)))
            mod 2 ^ 32]\<rparr>)"
proof -
  from thumb_tail(1) [OF d] show ops: "ops = [(''offset'', 2 * sign_extend 11 (instr AND 0x7FF))]"
    by (simp add: mult.commute)
  show "execute_thumb_instruction s instr
      = Inr (s\<lparr>registers := (registers s)[15 :=
          (registers s ! 15 + 4 + push_bit 1 (2 * sign_extend 11 (instr AND 0x7FF)))
            mod 2 ^ 32]\<rparr>)"
    unfolding execute_thumb_instruction_def
    by (simp add: PC_def reg_get_ok len d ops execute_thumb_branch_eq [OF len])
qed

lemma execute_thumb_instruction_T_BCC:
  assumes len: "length (registers s) = 16"
    and d: "decode_thumb_instruction instr 0 = Inr (''T_BCC'', ops)"
  shows "ops = [(''condition'', drop_bit 8 instr AND 0xF),
                (''offset'', 2 * sign_extend 8 (instr AND 0xFF))]"
    and "execute_thumb_instruction s instr
      = (if check_condition s (drop_bit 8 instr AND 0xF)
         then Inr (s\<lparr>registers := (registers s)[15 :=
               (registers s ! 15 + 4 + push_bit 1 (2 * sign_extend 8 (instr AND 0xFF)))
                 mod 2 ^ 32]\<rparr>)
         else Inr s)"
proof -
  from thumb_tail(2) [OF d] show ops: "ops = [(''condition'', drop_bit 8 instr AND 0xF),
                (''offset'', 2 * sign_extend 8 (instr AND 0xFF))]"
    by (simp add: mult.commute)
  show "execute_thumb_instruction s instr
      = (if check_condition s (drop_bit 8 instr AND 0xF)
         then Inr (s\<lparr>registers := (registers s)[15 :=
               (registers s ! 15 + 4 + push_bit 1 (2 * sign_extend 8 (instr AND 0xFF)))
                 mod 2 ^ 32]\<rparr>)
         else Inr s)"
    unfolding execute_thumb_instruction_def
    by (simp add: PC_def reg_get_ok len d ops execute_thumb_branch_conditional_eq [OF len])
qed

text \<open>
  Claim C10. For every Thumb unconditional branch (T_B) and every taken conditional
  branch (T_BCC) the handler sets PC = (PC at fetch + 4 + (decoded offset << 1)) mod 2^32,
  where the decoded offset operand already is 2 times the sign-extended raw field (11
  bits for T_B, 8 bits for T_BCC): the raw field is scaled by 4 in total. Nothing else
  changes; a conditional branch that is not taken changes nothing at all.
\<close>

theorem thumb_branch_target:
  assumes len: "length (registers s) = 16"
    and d: "decode_thumb_instruction instr 0 = Inr (m, ops)"
  shows "(m = ''T_B'' \<longrightarrow>
            op_get ops ''offset'' = Inr (2 * sign_extend 11 (instr AND 0x7FF))
          \<and> execute_thumb_instruction s instr
              = Inr (s\<lparr>registers := (registers s)[15 :=
                  (registers s ! 15 + 4 + push_bit 1 (2 * sign_extend 11 (instr AND 0x7FF)))
                    mod 2 ^ 32]\<rparr>)
          \<and> push_bit 1 (2 * sign_extend 11 (instr AND 0x7FF))
              = 4 * sign_extend 11 (instr AND 0x7FF))
       \<and> (m = ''T_BCC'' \<longrightarrow>
            op_get ops ''offset'' = Inr (2 * sign_extend 8 (instr AND 0xFF))
          \<and> op_get ops ''condition'' = Inr (drop_bit 8 instr AND 0xF)
          \<and> (check_condition s (drop_bit 8 instr AND 0xF) \<longrightarrow>
               execute_thumb_instruction s instr
                = Inr (s\<lparr>registers := (registers s)[15 :=
                    (registers s ! 15 + 4 + push_bit 1 (2 * sign_extend 8 (instr AND 0xFF)))
                      mod 2 ^ 32]\<rparr>))
          \<and> (\<not> check_condition s (drop_bit 8 instr AND 0xF) \<longrightarrow>
               execute_thumb_instruction s instr = Inr s)
          \<and> push_bit 1 (2 * sign_extend 8 (instr AND 0xFF))
              = 4 * sign_extend 8 (instr AND 0xFF))"
proof (intro conjI impI)
  assume m: "m = ''T_B''"
  note h = execute_thumb_instruction_T_B [OF len d [unfolded m]]
  show "op_get ops ''offset'' = Inr (2 * sign_extend 11 (instr AND 0x7FF))"
    by (simp add: h(1) op_get_def)
  show "execute_thumb_instruction s instr
      = Inr (s\<lparr>registers := (registers s)[15 :=
          (registers s ! 15 + 4 + push_bit 1 (2 * sign_extend 11 (instr AND 0x7FF)))
            mod 2 ^ 32]\<rparr>)"
    by (rule h(2))
  show "push_bit 1 (2 * sign_extend 11 (instr AND 0x7FF)) = 4 * sign_extend 11 (instr AND 0x7FF)"
    by (simp add: push_bit_eq_mult)
next
  assume m: "m = ''T_BCC''"
  note h = execute_thumb_instruction_T_BCC [OF len d [unfolded m]]
  show "op_get ops ''offset'' = Inr (2 * sign_extend 8 (instr AND 0xFF))"
    by (simp add: h(1) op_get_def)
  show "op_get ops ''condition'' = Inr (drop_bit 8 instr AND 0xF)"
    by (simp add: h(1) op_get_def)
  show "execute_thumb_instruction s instr
      = Inr (s\<lparr>registers := (registers s)[15 :=
          (registers s ! 15 + 4 + push_bit 1 (2 * sign_extend 8 (instr AND 0xFF)))
            mod 2 ^ 32]\<rparr>)"
    if "check_condition s (drop_bit 8 instr AND 0xF)"
    using that by (simp add: h(2))
  show "execute_thumb_instruction s instr = Inr s"
    if "\<not> check_condition s (drop_bit 8 instr AND 0xF)"
    using that by (simp add: h(2))
  show "push_bit 1 (2 * sign_extend 8 (instr AND 0xFF)) = 4 * sign_extend 8 (instr AND 0xFF)"
    by (simp add: push_bit_eq_mult)
qed

lemma init_cpsr: "cpsr (EnhancedARMExecutor_init c) = 0"
  by (simp add: EnhancedARMExecutor_init_def)

theorem thumb_branch_target_witness:
  "execute_thumb_instruction (EnhancedARMExecutor_init None) 0xE001
     = Inr ((EnhancedARMExecutor_init None)
             \<lparr>registers := [0, 0, 0, 0, 0, 0, 0, 0, 0, 0, 0, 0, 0, 0x1000, 0, 8]\<rparr>)
   \<and> execute_thumb_instruction (EnhancedARMExecutor_init None) 0xE7FE
     = Inr ((EnhancedARMExecutor_init None)
             \<lparr>registers := [0, 0, 0, 0, 0, 0, 0, 0, 0, 0, 0, 0, 0, 0x1000, 0, 0xFFFFFFFC]\<rparr>)
   \<and> execute_thumb_instruction (EnhancedARMExecutor_init None) 0xD101
     = Inr ((EnhancedARMExecutor_init None)
             \<lparr>registers := [0, 0, 0, 0, 0, 0, 0, 0, 0, 0, 0, 0, 0, 0x1000, 0, 8]\<rparr>)
   \<and> execute_thumb_instruction (EnhancedARMExecutor_init None) 0xD001
     = Inr (EnhancedARMExecutor_init None)"
proof -
  let ?s = "EnhancedARMExecutor_init None"
  have len: "length (registers ?s) = 16"
    by (simp add: init_registers)
  have d1: "decode_thumb_instruction 0xE001 0 = Inr (''T_B'', [(''offset'', 2)])"
    and d2: "decode_thumb_instruction 0xE7FE 0 = Inr (''T_B'', [(''offset'', -4)])"
    and d3: "decode_thumb_instruction 0xD101 0
               = Inr (''T_BCC'', [(''condition'', 1), (''offset'', 2)])"
    and d4: "decode_thumb_instruction 0xD001 0
               = Inr (''T_BCC'', [(''condition'', 0), (''offset'', 2)])"
    by (simp_all add: decode_thumb_instruction_def)
  have c: "check_condition ?s 1" "\<not> check_condition ?s 0"
    by (simp_all add: check_condition_def get_cpsr_flag_def flag_positions_def init_cpsr)
  show ?thesis
    using thumb_branch_target [OF len d1] thumb_branch_target [OF len d2]
      thumb_branch_target [OF len d3] thumb_branch_target [OF len d4] c
    by (simp add: init_registers sign_extend_def)
qed

section \<open>Compare and test instructions\<close>

lemma decode_compare_ops:
  assumes "decode_instruction i a = (m, ops)"
  shows "m = ''CMP'' \<or> m = ''TST'' \<or> m = ''TEQ'' \<longrightarrow>
           ops = [(''rn'', drop_bit 16 i AND 15), (''rm'', i AND 15)]"
    and "m = ''CMP_IMM'' \<or> m = ''TST_IMM'' \<or> m = ''TEQ_IMM'' \<longrightarrow>
           ops = [(''rn'', drop_bit 16 i AND 15), (''immediate'', i AND 0xFFF)]"
  using assms unfolding decode_instruction_def Let_def
  by (auto split: if_splits)

lemma and_15_range: "0 \<le> (x::int) AND 15" "(x::int) AND 15 < 16"
  by (simp_all add: and_mask_numeral)

lemma and_7_range: "0 \<le> (x::int) AND 7" "(x::int) AND 7 < 16"
proof -
  show "0 \<le> (x::int) AND 7" by (simp add: and_mask_numeral)
  have "(x::int) AND 7 < 8" by (simp add: and_mask_numeral)
  then show "(x::int) AND 7 < 16" by simp
qed

lemma flag_bit:
  "get_cpsr_flag s ''N'' = bit (cpsr s) 31" "get_cpsr_flag s ''Z'' = bit (cpsr s) 30"
  "get_cpsr_flag s ''C'' = bit (cpsr s) 29" "get_cpsr_flag s ''V'' = bit (cpsr s) 28"
  by (simp_all add: get_cpsr_flag_def flag_positions_def push_bit_eq_mult
        and_exp_eq_0_iff_not_bit [of _ 31, simplified] and_exp_eq_0_iff_not_bit [of _ 30, simplified]
        and_exp_eq_0_iff_not_bit [of _ 29, simplified] and_exp_eq_0_iff_not_bit [of _ 28, simplified])

lemma cpsr_update_flags:
  "cpsr (update_flags s r) =
     (if r < 0 then (if r = 0 then cpsr s OR 2 ^ 30 else cpsr s AND NOT (2 ^ 30)) OR 2 ^ 31
      else (if r = 0 then cpsr s OR 2 ^ 30 else cpsr s AND NOT (2 ^ 30)) AND NOT (2 ^ 31))"
  by (simp add: update_flags_def set_cpsr_flag_def flag_positions_def push_bit_eq_mult Let_def)

lemma update_flags_only_cpsr: "update_flags s r = s\<lparr>cpsr := cpsr (update_flags s r)\<rparr>"
  by (simp add: update_flags_def set_cpsr_flag_def flag_positions_def Let_def)

lemma update_flags_flags:
  "get_cpsr_flag (update_flags s r) ''Z'' \<longleftrightarrow> r = 0"
  "get_cpsr_flag (update_flags s r) ''N'' \<longleftrightarrow> r < 0"
  "get_cpsr_flag (update_flags s r) ''C'' = get_cpsr_flag s ''C''"
  "get_cpsr_flag (update_flags s r) ''V'' = get_cpsr_flag s ''V''"
  by (simp_all add: flag_bit cpsr_update_flags bit_simps)


lemma hi_register_range:
  "0 \<le> push_bit 3 ((h::int) AND 1) OR (l AND 7)" "push_bit 3 ((h::int) AND 1) OR (l AND 7) < 16"
proof -
  have h: "0 \<le> h AND 1" "h AND 1 < 2" and l: "0 \<le> l AND 7" "l AND 7 < 8"
    by (simp_all add: and_mask_numeral)
  have p: "0 \<le> push_bit 3 (h AND 1)" "push_bit 3 (h AND 1) < 2 ^ 4"
    using h by (simp_all add: push_bit_eq_mult)
  show "0 \<le> push_bit 3 (h AND 1) OR (l AND 7)"
    using p l by simp
  have "l AND 7 < 2 ^ 4" using l by simp
  with p have "push_bit 3 (h AND 1) OR (l AND 7) < 2 ^ 4"
    by (intro OR_upper) simp_all
  then show "push_bit 3 (h AND 1) OR (l AND 7) < 16" by simp
qed

lemma thumb_compare_ops:
  assumes d: "decode_thumb_instruction i a = Inr (m, ops)"
    and m: "m = ''T_CMP'' \<or> m = ''T_CMP_IMM''"
  shows "\<exists>rd x. 0 \<le> rd \<and> rd < 16
           \<and> (m = ''T_CMP'' \<longrightarrow> ops = [(''rd'', rd), (''rs'', x)] \<and> 0 \<le> x \<and> x < 16)
           \<and> (m = ''T_CMP_IMM'' \<longrightarrow> ops = [(''rd'', rd), (''immediate'', x)])"
proof -
  consider (f3) "drop_bit 13 i AND 7 = (1::int)"
    | (f2) "drop_bit 13 i AND 7 \<noteq> (1::int)" "drop_bit 11 i AND 31 = (3::int)"
    | (f1) "drop_bit 13 i AND 7 \<noteq> (1::int)" "drop_bit 11 i AND 31 \<noteq> (3::int)"
           "drop_bit 13 i AND 7 = (0::int)"
    | (f4) "drop_bit 13 i AND 7 \<noteq> (1::int)" "drop_bit 11 i AND 31 \<noteq> (3::int)"
           "drop_bit 13 i AND 7 \<noteq> (0::int)" "drop_bit 10 i AND 63 = (16::int)"
    | (f5) "drop_bit 13 i AND 7 \<noteq> (1::int)" "drop_bit 11 i AND 31 \<noteq> (3::int)"
           "drop_bit 13 i AND 7 \<noteq> (0::int)" "drop_bit 10 i AND 63 \<noteq> (16::int)"
           "drop_bit 10 i AND 63 = (17::int)"
    | (f678) "drop_bit 13 i AND 7 \<noteq> (1::int)" "drop_bit 11 i AND 31 \<noteq> (3::int)"
           "drop_bit 13 i AND 7 \<noteq> (0::int)" "drop_bit 10 i AND 63 \<noteq> (16::int)"
           "drop_bit 10 i AND 63 \<noteq> (17::int)" "drop_bit 13 i AND 7 = (2::int)"
    | (rest) "drop_bit 13 i AND 7 \<noteq> (1::int)" "drop_bit 11 i AND 31 \<noteq> (3::int)"
           "drop_bit 13 i AND 7 \<noteq> (0::int)" "drop_bit 10 i AND 63 \<noteq> (16::int)"
           "drop_bit 10 i AND 63 \<noteq> (17::int)" "drop_bit 13 i AND 7 \<noteq> (2::int)"
    by blast
  then show ?thesis
  proof cases
    case f3
    from d obtain m' where "py_index [''T_MOV_IMM'', ''T_CMP_IMM'', ''T_ADD_IMM'', ''T_SUB_IMM'']
        (drop_bit 11 i AND 3) = Inr m'" and "m = m'"
      and ops: "ops = [(''rd'', drop_bit 8 i AND 7), (''immediate'', i AND 255)]"
      unfolding decode_thumb_instruction_def Let_def
      by (simp only: f3 if_True simp_thms) (auto elim!: bindE_InrE)
    then have "m \<in> set [''T_MOV_IMM'', ''T_CMP_IMM'', ''T_ADD_IMM'', ''T_SUB_IMM'']"
      by (auto dest: py_index_mem)
    with m have "m = ''T_CMP_IMM''" by auto
    with ops and_7_range [of "drop_bit 8 i"] show ?thesis by auto
  next
    case f2
    from d have False
      unfolding decode_thumb_instruction_def Let_def
      using m by (simp only: f2 if_True if_False simp_thms rel_simps) (auto split: if_splits)
    then show ?thesis ..
  next
    case f1
    from d obtain nm where "py_index [''LSL'', ''LSR'', ''ASR''] (drop_bit 11 i AND 3) = Inr nm"
      and "m = ''T_'' @ nm"
      unfolding decode_thumb_instruction_def Let_def
      by (simp only: f1 if_True if_False simp_thms rel_simps) (auto elim!: bindE_InrE)
    then have "nm \<in> set [''LSL'', ''LSR'', ''ASR'']" "m = ''T_'' @ nm"
      by (auto dest: py_index_mem)
    with m have False by auto
    then show ?thesis ..
  next
    case f4
    from d obtain nm where "py_index [''AND'', ''EOR'', ''LSL'', ''LSR'', ''ASR'', ''ADC'', ''SBC'',
         ''ROR'', ''TST'', ''NEG'', ''CMP'', ''CMN'', ''ORR'', ''MUL'', ''BIC'', ''MVN'']
        (drop_bit 6 i AND 15) = Inr nm"
      and "m = ''T_'' @ nm"
      and ops: "ops = [(''rd'', i AND 7), (''rs'', drop_bit 3 i AND 7)]"
      unfolding decode_thumb_instruction_def Let_def
      by (simp only: f4 if_True if_False simp_thms rel_simps) (auto elim!: bindE_InrE)
    then have "nm \<in> set [''AND'', ''EOR'', ''LSL'', ''LSR'', ''ASR'', ''ADC'', ''SBC'',
         ''ROR'', ''TST'', ''NEG'', ''CMP'', ''CMN'', ''ORR'', ''MUL'', ''BIC'', ''MVN'']"
      "m = ''T_'' @ nm"
      by (auto dest: py_index_mem)
    with m have "m = ''T_CMP''" by auto
    with ops and_7_range [of i] and_7_range [of "drop_bit 3 i"] show ?thesis by auto
  next
    case f5
    from d obtain m' where "py_index [''T_ADD'', ''T_CMP'', ''T_MOV_HI'', ''T_BX'']
        (drop_bit 8 i AND 3) = Inr m'" and "m = m'"
      and ops: "ops = [(''rd'', push_bit 3 (drop_bit 7 i AND 1) OR (i AND 7)),
                       (''rs'', push_bit 3 (drop_bit 6 i AND 1) OR (drop_bit 3 i AND 7))]"
      unfolding decode_thumb_instruction_def Let_def
      by (simp only: f5 if_True if_False simp_thms rel_simps) (auto elim!: bindE_InrE)
    then have "m \<in> set [''T_ADD'', ''T_CMP'', ''T_MOV_HI'', ''T_BX'']"
      by (auto dest: py_index_mem)
    with m have "m = ''T_CMP''" by auto
    with ops hi_register_range [of "drop_bit 7 i" i]
      hi_register_range [of "drop_bit 6 i" "drop_bit 3 i"] show ?thesis by auto
  next
    case f678
    from d have False
      unfolding decode_thumb_instruction_def Let_def
      using m by (simp only: f678 if_True if_False simp_thms rel_simps) (auto split: if_splits)
    then show ?thesis ..
  next
    case rest
    from d have False
      unfolding decode_thumb_instruction_def Let_def
      using m by (simp only: rest if_False simp_thms rel_simps) (auto split: if_splits)
    then show ?thesis ..
  qed
qed


text \<open>The result a compare or test instruction computes, in the spec's words: the first
  operand register minus the second operand (CMP), their bitwise AND (TST) or XOR (TEQ),
  the second operand being a register or the immediate. It is an unbounded integer; no
  reduction mod 2^32 is applied.\<close>

definition operand :: "operands \<Rightarrow> string \<Rightarrow> int" where
  "operand ops k = (case map_of ops k of Some v \<Rightarrow> v | None \<Rightarrow> 0)"

definition compare_value :: "EnhancedARMExecutor \<Rightarrow> string \<Rightarrow> operands \<Rightarrow> int" where
  "compare_value s m ops =
     (if m = ''CMP'' then
        registers s ! nat (operand ops ''rn'') - registers s ! nat (operand ops ''rm'')
      else if m = ''CMP_IMM'' then
        registers s ! nat (operand ops ''rn'') - operand ops ''immediate''
      else if m = ''TST'' then
        registers s ! nat (operand ops ''rn'') AND registers s ! nat (operand ops ''rm'')
      else if m = ''TST_IMM'' then
        registers s ! nat (operand ops ''rn'') AND operand ops ''immediate''
      else if m = ''TEQ'' then
        registers s ! nat (operand ops ''rn'') XOR registers s ! nat (operand ops ''rm'')
      else if m = ''TEQ_IMM'' then
        registers s ! nat (operand ops ''rn'') XOR operand ops ''immediate''
      else if m = ''T_CMP'' then
        registers s ! nat (operand ops ''rd'') - registers s ! nat (operand ops ''rs'')
      else
        registers s ! nat (operand ops ''rd'') - operand ops ''immediate'')"

lemma arm_compare_executes:
  assumes len: "length (registers s) = 16"
    and d: "decode_instruction instr a = (m, ops)"
    and m: "m \<in> set [''CMP'', ''CMP_IMM'', ''TST'', ''TST_IMM'', ''TEQ'', ''TEQ_IMM'']"
  shows "execute_arm_instruction s instr = Inr (update_flags s (compare_value s m ops))"
proof -
  have d': "decode_instruction instr (registers s ! 15) = (m, ops)"
    using d decode_instruction_address [of instr a] by simp
  note r = and_15_range [of "drop_bit 16 instr"] and_15_range [of instr]
  from m consider "m = ''CMP''" | "m = ''CMP_IMM''" | "m = ''TST''" | "m = ''TST_IMM''"
    | "m = ''TEQ''" | "m = ''TEQ_IMM''"
    by auto
  then show ?thesis
  proof cases
    case 1
    with decode_compare_ops(1) [OF d]
    have ops: "ops = [(''rn'', drop_bit 16 instr AND 15), (''rm'', instr AND 15)]" by simp
    show ?thesis
      unfolding execute_arm_instruction_def enhanced_decode_instruction_def
      using r by (simp add: PC_def reg_get_ok len d' 1 ops execute_arm_cmp_def op_get_def
            compare_value_def operand_def)
  next
    case 2
    with decode_compare_ops(2) [OF d]
    have ops: "ops = [(''rn'', drop_bit 16 instr AND 15), (''immediate'', instr AND 0xFFF)]"
      by simp
    show ?thesis
      unfolding execute_arm_instruction_def enhanced_decode_instruction_def
      using r by (simp add: PC_def reg_get_ok len d' 2 ops execute_arm_cmp_imm_def op_get_def
            compare_value_def operand_def)
  next
    case 3
    with decode_compare_ops(1) [OF d]
    have ops: "ops = [(''rn'', drop_bit 16 instr AND 15), (''rm'', instr AND 15)]" by simp
    show ?thesis
      unfolding execute_arm_instruction_def enhanced_decode_instruction_def
      using r by (simp add: PC_def reg_get_ok len d' 3 ops execute_arm_tst_def op_get_def
            compare_value_def operand_def)
  next
    case 4
    with decode_compare_ops(2) [OF d]
    have ops: "ops = [(''rn'', drop_bit 16 instr AND 15), (''immediate'', instr AND 0xFFF)]"
      by simp
    show ?thesis
      unfolding execute_arm_instruction_def enhanced_decode_instruction_def
      using r by (simp add: PC_def reg_get_ok len d' 4 ops execute_arm_tst_imm_def op_get_def
            compare_value_def operand_def)
  next
    case 5
    with decode_compare_ops(1) [OF d]
    have ops: "ops = [(''rn'', drop_bit 16 instr AND 15), (''rm'', instr AND 15)]" by simp
    show ?thesis
      unfolding execute_arm_instruction_def enhanced_decode_instruction_def
      using r by (simp add: PC_def reg_get_ok len d' 5 ops execute_arm_teq_def op_get_def
            compare_value_def operand_def)
  next
    case 6
    with decode_compare_ops(2) [OF d]
    have ops: "ops = [(''rn'', drop_bit 16 instr AND 15), (''immediate'', instr AND 0xFFF)]"
      by simp
    show ?thesis
      unfolding execute_arm_instruction_def enhanced_decode_instruction_def
      using r by (simp add: PC_def reg_get_ok len d' 6 ops execute_arm_teq_imm_def op_get_def
            compare_value_def operand_def)
  qed
qed

lemma thumb_compare_executes:
  assumes len: "length (registers s) = 16"
    and d: "decode_thumb_instruction instr 0 = Inr (m, ops)"
    and m: "m \<in> set [''T_CMP'', ''T_CMP_IMM'']"
  shows "execute_thumb_instruction s instr = Inr (update_flags s (compare_value s m ops))"
proof -
  from m have m': "m = ''T_CMP'' \<or> m = ''T_CMP_IMM''" by simp
  from thumb_compare_ops [OF d m'] obtain rd x where rd: "0 \<le> rd" "rd < 16"
    and c: "m = ''T_CMP'' \<longrightarrow> ops = [(''rd'', rd), (''rs'', x)] \<and> 0 \<le> x \<and> x < 16"
    and ci: "m = ''T_CMP_IMM'' \<longrightarrow> ops = [(''rd'', rd), (''immediate'', x)]"
    by blast
  from m' show ?thesis
  proof
    assume 1: "m = ''T_CMP''"
    with c have ops: "ops = [(''rd'', rd), (''rs'', x)]" and x: "0 \<le> x" "x < 16" by simp_all
    show ?thesis
      unfolding execute_thumb_instruction_def
      using rd x by (simp add: PC_def reg_get_ok len d 1 ops execute_thumb_cmp_def op_get_def
            compare_value_def operand_def)
  next
    assume 2: "m = ''T_CMP_IMM''"
    with ci have ops: "ops = [(''rd'', rd), (''immediate'', x)]" by simp
    show ?thesis
      unfolding execute_thumb_instruction_def
      using rd by (simp add: PC_def reg_get_ok len d 2 ops execute_thumb_cmp_imm_def op_get_def
            compare_value_def operand_def)
  qed
qed


text \<open>
  Claim C1, as stated: after a compare or test instruction N is set iff bit 31 of the
  result mod 2^32 is set. It fails: from the initial state, \<open>MVN R0, R1\<close> (0xE1E00001)
  leaves R0 = 0xFFFFFFFF and R1 = 0, and the following \<open>CMP R0, R1\<close> (0xE1500001)
  computes 0xFFFFFFFF, whose bit 31 is set, yet leaves N clear.
\<close>

theorem compare_negative_flag_counterexample:
  "bindE (execute_arm_instruction (EnhancedARMExecutor_init None) 0xE1E00001)
     (\<lambda>s1. bindE (execute_arm_instruction s1 0xE1500001)
        (\<lambda>s2. Inr (registers s1 ! 0, registers s1 ! 1, get_cpsr_flag s2 ''N'',
                    bit ((registers s1 ! 0 - registers s1 ! 1) mod 2 ^ 32) 31)))
   = Inr (0xFFFFFFFF, 0, False, True)"
proof -
  let ?s0 = "EnhancedARMExecutor_init None"
  let ?s1 = "?s0\<lparr>registers := [0xFFFFFFFF, 0, 0, 0, 0, 0, 0, 0, 0, 0, 0, 0, 0, 0x1000, 0, 0]\<rparr>"
  have d1: "decode_instruction 0xE1E00001 0 = (''MVN'', [(''rd'', 0), (''rm'', 1)])"
    and d2: "decode_instruction 0xE1500001 0 = (''CMP'', [(''rn'', 0), (''rm'', 1)])"
    by (simp_all add: decode_instruction_def)
  have e1: "execute_arm_instruction ?s0 0xE1E00001 = Inr ?s1"
    by (simp add: execute_arm_instruction_def enhanced_decode_instruction_def PC_def
          reg_get_def reg_set_def py_index_def py_store_def init_registers d1
          execute_arm_mvn_def op_get_def and_FFFFFFFF)
  have e2: "execute_arm_instruction ?s1 0xE1500001 = Inr (update_flags ?s1 0xFFFFFFFF)"
    by (simp add: execute_arm_instruction_def enhanced_decode_instruction_def PC_def
          reg_get_def py_index_def d2 execute_arm_cmp_def op_get_def)
  have b: "bit (4294967295 :: int) 31"
    by (simp add: bit_iff_odd)
  show ?thesis
    by (simp add: e1 e2 update_flags_flags b)
qed

text \<open>
  Claim C1, amended: every compare/test instruction (CMP, CMP_IMM, TST, TST_IMM, TEQ,
  TEQ_IMM, T_CMP, T_CMP_IMM) changes the status word only: no register, memory or mode
  is written, and the C and V flags keep their values. Afterwards Z is set iff the
  computed result equals 0, and N is set iff the integer result as the handler computes
  it (not reduced mod 2^32) is negative.
\<close>

theorem compare_test_flags:
  assumes len: "length (registers s) = 16"
  shows "(decode_instruction instr a = (m, ops)
            \<and> m \<in> set [''CMP'', ''CMP_IMM'', ''TST'', ''TST_IMM'', ''TEQ'', ''TEQ_IMM'']
          \<longrightarrow> execute_arm_instruction s instr = Inr (update_flags s (compare_value s m ops)))
       \<and> (decode_thumb_instruction tinstr 0 = Inr (tm, tops)
            \<and> tm \<in> set [''T_CMP'', ''T_CMP_IMM'']
          \<longrightarrow> execute_thumb_instruction s tinstr
                = Inr (update_flags s (compare_value s tm tops)))
       \<and> update_flags s r = s\<lparr>cpsr := cpsr (update_flags s r)\<rparr>
       \<and> registers (update_flags s r) = registers s
       \<and> memory (update_flags s r) = memory s
       \<and> get_cpsr_flag (update_flags s r) ''C'' = get_cpsr_flag s ''C''
       \<and> get_cpsr_flag (update_flags s r) ''V'' = get_cpsr_flag s ''V''
       \<and> (get_cpsr_flag (update_flags s r) ''Z'' \<longleftrightarrow> r = 0)
       \<and> (get_cpsr_flag (update_flags s r) ''N'' \<longleftrightarrow> r < 0)"
proof -
  have only: "update_flags s r = s\<lparr>cpsr := cpsr (update_flags s r)\<rparr>"
    by (rule update_flags_only_cpsr)
  have regs: "registers (update_flags s r) = registers s"
    and mem: "memory (update_flags s r) = memory s"
    by (subst only, simp)+
  from arm_compare_executes [OF len] thumb_compare_executes [OF len] only regs mem
    update_flags_flags [of s r]
  show ?thesis by blast
qed

theorem compare_test_flags_witness:
  "execute_arm_instruction
     ((EnhancedARMExecutor_init None)
        \<lparr>registers := [5, 7, 0, 0, 0, 0, 0, 0, 0, 0, 0, 0, 0, 0x1000, 0, 0]\<rparr>) 0xE1500001
     = Inr (update_flags
         ((EnhancedARMExecutor_init None)
            \<lparr>registers := [5, 7, 0, 0, 0, 0, 0, 0, 0, 0, 0, 0, 0, 0x1000, 0, 0]\<rparr>) (- 2))
   \<and> get_cpsr_flag (update_flags
         ((EnhancedARMExecutor_init None)
            \<lparr>registers := [5, 7, 0, 0, 0, 0, 0, 0, 0, 0, 0, 0, 0, 0x1000, 0, 0]\<rparr>) (- 2)) ''N''
   \<and> \<not> get_cpsr_flag (update_flags
         ((EnhancedARMExecutor_init None)
            \<lparr>registers := [5, 7, 0, 0, 0, 0, 0, 0, 0, 0, 0, 0, 0, 0x1000, 0, 0]\<rparr>) (- 2)) ''Z''
   \<and> execute_thumb_instruction
     ((EnhancedARMExecutor_init None)
        \<lparr>registers := [5, 7, 0, 0, 0, 0, 0, 0, 0, 0, 0, 0, 0, 0x1000, 0, 0]\<rparr>) 0x2805
     = Inr (update_flags
         ((EnhancedARMExecutor_init None)
            \<lparr>registers := [5, 7, 0, 0, 0, 0, 0, 0, 0, 0, 0, 0, 0, 0x1000, 0, 0]\<rparr>) 0)"
proof -
  let ?s = "(EnhancedARMExecutor_init None)
        \<lparr>registers := [5, 7, 0, 0, 0, 0, 0, 0, 0, 0, 0, 0, 0, 0x1000, 0, 0]\<rparr>"
  have len: "length (registers ?s) = 16" by simp
  have d: "decode_instruction 0xE1500001 0 = (''CMP'', [(''rn'', 0), (''rm'', 1)])"
    by (simp add: decode_instruction_def)
  have td: "decode_thumb_instruction 0x2805 0
      = Inr (''T_CMP_IMM'', [(''rd'', 0), (''immediate'', 5)])"
    by (simp add: decode_thumb_instruction_def py_index_def)
  have v: "compare_value ?s ''CMP'' [(''rn'', 0), (''rm'', 1)] = - 2"
    "compare_value ?s ''T_CMP_IMM'' [(''rd'', 0), (''immediate'', 5)] = 0"
    by (simp_all add: compare_value_def operand_def)
  show ?thesis
    using compare_test_flags [OF len, of "0xE1500001" 0 "''CMP''" "[(''rn'', 0), (''rm'', 1)]"
        "0x2805" "''T_CMP_IMM''" "[(''rd'', 0), (''immediate'', 5)]" "- 2"] d td v
    by simp
qed

section \<open>Load and store\<close>

lemma execute_thumb_str_memory:
  assumes "execute_thumb_str s ops = Inr s'"
  shows "memory s' = memory s" and "registers s' = registers s"
  using assms unfolding execute_thumb_str_def Let_def
  by (auto elim!: bindE_InrE split: option.splits)

lemma decode_ldr_str_ops:
  assumes "decode_instruction i a = (m, ops)" and "m = ''LDR'' \<or> m = ''STR''"
  shows "ops = [(''rd'', drop_bit 12 i AND 15), (''rn'', drop_bit 16 i AND 15),
                (''offset'', i AND 0xFFF)]"
  using assms unfolding decode_instruction_def Let_def
  by (auto split: if_splits)

lemma probe_caches_fields:
  assumes "probe_caches s a w = Inr s1"
  shows "memory s1 = memory s" and "registers s1 = registers s"
  using assms unfolding probe_caches_def
  by (auto elim!: bindE_InrE split: option.splits)

lemma read_memory_word_cong:
  "memory s1 = memory s \<Longrightarrow> read_memory_word s1 a = read_memory_word s a"
  by (simp add: read_memory_word_eq memory_get_def)

text \<open>The parts of the load/store claim that hold: the ARM store writes the word (its
  value mod 2^32) at base + offset, the ARM load reads it into rd, with or without a
  cache, and the Thumb load reads it when no cache is attached.\<close>

lemma arm_store_writes_word:
  assumes len: "length (registers s) = 16"
    and d: "decode_instruction instr a = (''STR'', ops)"
    and ex: "execute_arm_instruction s instr = Inr s'"
  shows "read_memory_word s'
           (registers s ! nat (drop_bit 16 instr AND 15) + (instr AND 0xFFF))
         = registers s ! nat (drop_bit 12 instr AND 15) mod 2 ^ 32"
proof -
  have d': "decode_instruction instr (registers s ! 15) = (''STR'', ops)"
    using d decode_instruction_address [of instr a] by simp
  have ops: "ops = [(''rd'', drop_bit 12 instr AND 15), (''rn'', drop_bit 16 instr AND 15),
                (''offset'', instr AND 0xFFF)]"
    using decode_ldr_str_ops [OF d] by simp
  note r = and_15_range [of "drop_bit 16 instr"] and_15_range [of "drop_bit 12 instr"]
  let ?addr = "registers s ! nat (drop_bit 16 instr AND 15) + (instr AND 0xFFF)"
  let ?val = "registers s ! nat (drop_bit 12 instr AND 15)"
  have "execute_arm_instruction s instr
      = bindE (probe_caches s ?addr True) (\<lambda>s1. Inr (write_memory_word s1 ?addr ?val))"
    unfolding execute_arm_instruction_def enhanced_decode_instruction_def
    using r by (simp add: PC_def reg_get_ok len d' ops execute_arm_str_def op_get_def Let_def)
  with ex obtain s1 where "s' = write_memory_word s1 ?addr ?val"
    by (auto elim!: bindE_InrE)
  then show ?thesis
    by (simp add: read_write_memory_word take_bit_eq_mod)
qed

lemma arm_load_reads_word:
  assumes len: "length (registers s) = 16"
    and d: "decode_instruction instr a = (''LDR'', ops)"
    and ex: "execute_arm_instruction s instr = Inr s'"
  shows "registers s' = (registers s)[nat (drop_bit 12 instr AND 15) :=
           read_memory_word s
             (registers s ! nat (drop_bit 16 instr AND 15) + (instr AND 0xFFF))]"
proof -
  have d': "decode_instruction instr (registers s ! 15) = (''LDR'', ops)"
    using d decode_instruction_address [of instr a] by simp
  have ops: "ops = [(''rd'', drop_bit 12 instr AND 15), (''rn'', drop_bit 16 instr AND 15),
                (''offset'', instr AND 0xFFF)]"
    using decode_ldr_str_ops [OF d] by simp
  note r = and_15_range [of "drop_bit 16 instr"] and_15_range [of "drop_bit 12 instr"]
  let ?addr = "registers s ! nat (drop_bit 16 instr AND 15) + (instr AND 0xFFF)"
  have "execute_arm_instruction s instr
      = bindE (probe_caches s ?addr False)
          (\<lambda>s1. reg_set s1 (drop_bit 12 instr AND 15) (read_memory_word s1 ?addr))"
    unfolding execute_arm_instruction_def enhanced_decode_instruction_def
    using r by (simp add: PC_def reg_get_ok len d' ops execute_arm_ldr_def op_get_def Let_def)
  with ex obtain s1 where p: "probe_caches s ?addr False = Inr s1"
    and s': "reg_set s1 (drop_bit 12 instr AND 15) (read_memory_word s1 ?addr) = Inr s'"
    by (auto elim!: bindE_InrE)
  note f = probe_caches_fields [OF p]
  from s' show ?thesis
    using r len by (auto simp add: reg_set_ok f read_memory_word_cong [OF f(1)])
qed

lemma thumb_load_reads_word_without_cache:
  assumes len: "length (registers s) = 16"
    and d: "decode_thumb_instruction instr 0 = Inr (''T_LDR'', ops)"
    and c: "cache s = None"
  shows "execute_thumb_instruction s instr
         = Inr (s\<lparr>registers := (registers s)[nat (instr AND 7) :=
             read_memory_word s
               (registers s ! nat (drop_bit 3 instr AND 7)
                 + push_bit 2 (drop_bit 6 instr AND 31))]\<rparr>)"
proof -
  have ops: "ops = [(''rd'', instr AND 7), (''rb'', drop_bit 3 instr AND 7),
                  (''offset'', drop_bit 6 instr AND 31)]"
    using thumb_tail(3) [OF d] by simp
  note r = and_7_range [of instr] and_7_range [of "drop_bit 3 instr"]
  show ?thesis
    unfolding execute_thumb_instruction_def
    using r by (simp add: PC_def reg_get_ok reg_set_ok len d ops execute_thumb_ldr_def
          op_get_def c Let_def)
qed

text \<open>
  Claim C3 at concrete inputs. From the initial state without a cache, the Thumb
  instructions \<open>MOV R0, #0x55\<close> (0x2055) and \<open>STR R0, [R1, #0]\<close> (0x6008) leave
  R0 = 0x55 and R1 = 0, but the memory stays empty: the word at the effective address 0
  reads 0, not 0x55. The ARM store \<open>STR R0, [R1, #0]\<close> (0xE5810000) in the same state does
  write the word. With a cache attached, the Thumb load \<open>LDR R2, [R1, #0]\<close> (0x680A)
  raises TypeError instead of loading.
\<close>

theorem thumb_store_writes_nothing:
  "bindE (execute_thumb_instruction (EnhancedARMExecutor_init None) 0x2055)
     (\<lambda>s1. bindE (execute_thumb_instruction s1 0x6008)
        (\<lambda>s2. Inr (registers s2 ! 0, registers s2 ! 1, read_memory_word s2 0,
                    dom (memory s2))))
     = Inr (0x55, 0, 0, {})
   \<and> bindE (execute_thumb_instruction (EnhancedARMExecutor_init None) 0x2055)
     (\<lambda>s1. bindE (execute_arm_instruction s1 0xE5810000)
        (\<lambda>s2. Inr (registers s2 ! 0, registers s2 ! 1, read_memory_word s2 0)))
     = Inr (0x55, 0, 0x55)
   \<and> execute_thumb_instruction (EnhancedARMExecutor_init (Some c)) 0x680A = Inl TypeError"
proof -
  let ?s0 = "EnhancedARMExecutor_init None"
  let ?s1 = "?s0\<lparr>registers := [0x55, 0, 0, 0, 0, 0, 0, 0, 0, 0, 0, 0, 0, 0x1000, 0, 0]\<rparr>"
  have d1: "decode_thumb_instruction 0x2055 0
      = Inr (''T_MOV_IMM'', [(''rd'', 0), (''immediate'', 0x55)])"
    and d2: "decode_thumb_instruction 0x6008 0
      = Inr (''T_STR'', [(''rd'', 0), (''rb'', 1), (''offset'', 0)])"
    and d3: "decode_thumb_instruction 0x680A 0
      = Inr (''T_LDR'', [(''rd'', 2), (''rb'', 1), (''offset'', 0)])"
    by (simp_all add: decode_thumb_instruction_def py_index_def)
  have d4: "decode_instruction 0xE5810000 0 = (''STR'', [(''rd'', 0), (''rn'', 1), (''offset'', 0)])"
    by (simp add: decode_instruction_def)
  have c0: "cache ?s0 = None" and m0: "memory ?s0 = Map.empty"
    by (simp_all add: EnhancedARMExecutor_init_def)
  have e1: "execute_thumb_instruction ?s0 0x2055 = Inr ?s1"
    by (simp add: execute_thumb_instruction_def PC_def reg_get_def reg_set_def py_index_def
          py_store_def init_registers d1 execute_thumb_mov_imm_def op_get_def)
  have e2: "execute_thumb_instruction ?s1 0x6008 = Inr ?s1"
    by (simp add: execute_thumb_instruction_def PC_def reg_get_def py_index_def d2
          execute_thumb_str_def op_get_def c0)
  have e3: "execute_arm_instruction ?s1 0xE5810000 = Inr (write_memory_word ?s1 0 0x55)"
    by (simp add: execute_arm_instruction_def enhanced_decode_instruction_def PC_def
          reg_get_def py_index_def d4 execute_arm_str_def op_get_def probe_caches_def c0)
  have r: "read_memory_word ?s1 0 = 0"
    by (simp add: read_memory_word_eq memory_get_def m0)
  have w: "read_memory_word (write_memory_word ?s1 0 0x55) 0 = 0x55"
    by (simp add: read_write_memory_word)
  have wr: "registers (write_memory_word ?s1 0 0x55) = registers ?s1"
    by (simp add: write_memory_word_def)
  have e4: "execute_thumb_instruction (EnhancedARMExecutor_init (Some c)) 0x680A = Inl TypeError"
    by (simp add: execute_thumb_instruction_def PC_def reg_get_def py_index_def d3
          init_registers execute_thumb_ldr_def op_get_def EnhancedARMExecutor_init_def SP_def)
  show ?thesis
    by (simp add: e1 e2 e3 e4 r w wr m0)
qed

section \<open>The instruction-count ceiling\<close>

lemma execute_program_loop_bound:
  assumes "execute_program_loop s = Inr (s', broke)"
  shows "instruction_count s' \<le> max (instruction_count s) (max_instructions s)
       \<and> max_instructions s' = max_instructions s
       \<and> (broke \<longrightarrow> instruction_count s' < max_instructions s')
       \<and> (\<not> broke \<and> running s \<longrightarrow> instruction_count s' \<ge> max_instructions s')"
  using assms
proof (induction s rule: execute_program_loop.induct)
  case (1 s)
  show ?case
  proof (cases "running s \<and> instruction_count s < max_instructions s")
    case False
    with "1.prems" show ?thesis
      by (subst (asm) execute_program_loop.simps) auto
  next
    case True
    show ?thesis
    proof (cases "execute_program_body s")
      case (Inl e)
      with True "1.prems" show ?thesis
        by (subst (asm) execute_program_loop.simps) simp
    next
      case (Inr st)
      show ?thesis
      proof (cases st)
        case (Break s1)
        with Inr True "1.prems" have "s' = s1" "broke"
          by (subst (asm) execute_program_loop.simps, simp)+
        moreover have "s1 = s"
          using Inr Break unfolding execute_program_body_def
          by (auto elim!: bindE_InrE split: if_splits prod.splits)
        ultimately show ?thesis using True by simp
      next
        case (Continue s1)
        with Inr True "1.prems" have l: "execute_program_loop s1 = Inr (s', broke)"
          by (subst (asm) execute_program_loop.simps) simp
        note c = execute_program_body_Continue [OF Inr [unfolded Continue]]
        from "1.IH" [OF True Inr Continue l] c True show ?thesis
          by auto
      qed
    qed
  qed
qed


lemma execute_program_loop_break:
  assumes "running s" and "instruction_count s < max_instructions s"
    and "execute_program_body s = Inr (Break s')"
  shows "execute_program_loop s = Inr (s', True)"
  by (subst execute_program_loop.simps) (simp add: assms)

lemma execute_program_loop_continue:
  assumes "running s" and "instruction_count s < max_instructions s"
    and "execute_program_body s = Inr (Continue s')"
  shows "execute_program_loop s = execute_program_loop s'"
  by (subst execute_program_loop.simps) (simp add: assms)

lemma execute_program_loop_stop:
  assumes "\<not> (running s \<and> instruction_count s < max_instructions s)"
  shows "execute_program_loop s = Inr (s, False)"
  using assms by (subst execute_program_loop.simps) auto

text \<open>
  Claim C7 at a concrete input. The program consisting of the single ARM instruction
  0xEAFFFFFE (\<open>B\<close> with offset field -2, a branch to itself at address 0) does not run
  to the ceiling: the branch handler sets PC to 0, the engine finds PC equal to its value
  at fetch, takes the instruction for one that did not set PC and adds 4; index 1 is out
  of bounds, and the run stops normally after one instruction, with the "PC beyond
  program bounds" signal and without the "limit reached" signal. The same happens to the
  Thumb self-branch 0xE7FF, which stops at PC = 2.
\<close>

theorem self_branch_stops_after_one_instruction:
  "bindE (load_program (EnhancedARMExecutor_init None) [(0xEAFFFFFE, ''ARM'')])
     (\<lambda>s. bindE (execute_program s)
        (\<lambda>r. Inr (instruction_count (final r), registers (final r) ! 15,
                   pc_beyond_bounds r, limit_reached r)))
   = Inr (1, 4, True, False)
   \<and> bindE (load_program (EnhancedARMExecutor_init None) [(0xE7FF, ''Thumb'')])
     (\<lambda>s. bindE (execute_program s)
        (\<lambda>r. Inr (instruction_count (final r), registers (final r) ! 15,
                   pc_beyond_bounds r, limit_reached r)))
   = Inr (1, 2, True, False)"
proof -
  let ?i = "EnhancedARMExecutor_init None"
  let ?s0 = "?i\<lparr>program := [(0xEAFFFFFE, ''ARM'')], arm_count := Some 1, thumb_base := Some 4\<rparr>"
  let ?s1 = "?s0\<lparr>registers := [0, 0, 0, 0, 0, 0, 0, 0, 0, 0, 0, 0, 0, 0x1000, 0, 4],
                  instruction_count := 1\<rparr>"
  have f: "mode ?i = ''ARM''" "running ?i" "instruction_count ?i = 0"
    "max_instructions ?i = 1000"
    by (simp_all add: EnhancedARMExecutor_init_def)
  have l: "load_program ?i [(0xEAFFFFFE, ''ARM'')] = Inr ?s0"
    by (simp add: load_program_def)
  have len: "length (registers ?s0) = 16"
    by (simp add: init_registers)
  have d: "fst (decode_instruction 0xEAFFFFFE (registers ?s0 ! 15)) = ''B''"
    by (simp add: decode_instruction_def)
  have e: "execute_arm_instruction ?s0 0xEAFFFFFE
      = Inr (?s0\<lparr>registers := [0, 0, 0, 0, 0, 0, 0, 0, 0, 0, 0, 0, 0, 0x1000, 0, 0]\<rparr>)"
    using execute_arm_instruction_B [OF len d]
    by (simp add: init_registers sign_extend_def)
  have b0: "execute_program_body ?s0 = Inr (Continue ?s1)"
    by (simp add: execute_program_body_def instr_index_of_def execute_and_advance_def
          PC_def reg_get_def reg_set_def py_index_def py_store_def init_registers f e)
  have b1: "execute_program_body ?s1 = Inr (Break ?s1)"
    by (simp add: execute_program_body_def instr_index_of_def PC_def reg_get_def
          py_index_def f)
  have l1: "execute_program_loop ?s1 = Inr (?s1, True)"
    by (rule execute_program_loop_break [OF _ _ b1]) (simp_all add: f)
  have l0: "execute_program_loop ?s0 = Inr (?s1, True)"
    using execute_program_loop_continue [OF _ _ b0] l1 by (simp add: f)
  have arm: "bindE (load_program ?i [(0xEAFFFFFE, ''ARM'')])
     (\<lambda>s. bindE (execute_program s)
        (\<lambda>r. Inr (instruction_count (final r), registers (final r) ! 15,
                   pc_beyond_bounds r, limit_reached r)))
   = Inr (1, 4, True, False)"
    by (simp add: l execute_program_def l0 f)
  let ?t0 = "?i\<lparr>program := [(0xE7FF, ''Thumb'')], arm_count := Some 0, thumb_base := Some 0\<rparr>"
  let ?t0' = "?t0\<lparr>mode := ''Thumb'', decoder_mode := ''Thumb''\<rparr>"
  let ?t1 = "?t0'\<lparr>registers := [0, 0, 0, 0, 0, 0, 0, 0, 0, 0, 0, 0, 0, 0x1000, 0, 2],
                   instruction_count := 1\<rparr>"
  have tl: "load_program ?i [(0xE7FF, ''Thumb'')] = Inr ?t0"
    by (simp add: load_program_def)
  have tlen: "length (registers ?t0') = 16"
    by (simp add: init_registers)
  have td: "decode_thumb_instruction 0xE7FF 0 = Inr (''T_B'', [(''offset'', - 2)])"
    by (simp add: decode_thumb_instruction_def)
  have te: "execute_thumb_instruction ?t0' 0xE7FF
      = Inr (?t0'\<lparr>registers := [0, 0, 0, 0, 0, 0, 0, 0, 0, 0, 0, 0, 0, 0x1000, 0, 0]\<rparr>)"
    using execute_thumb_instruction_T_B(2) [OF tlen td]
    by (simp add: init_registers sign_extend_def)
  have tb0: "execute_program_body ?t0 = Inr (Continue ?t1)"
    by (simp add: execute_program_body_def instr_index_of_def execute_and_advance_def
          switch_mode_def PC_def reg_get_def reg_set_def py_index_def py_store_def
          init_registers f te)
  have tb1: "execute_program_body ?t1 = Inr (Break ?t1)"
    by (simp add: execute_program_body_def instr_index_of_def PC_def reg_get_def
          py_index_def f)
  have tl1: "execute_program_loop ?t1 = Inr (?t1, True)"
    by (rule execute_program_loop_break [OF _ _ tb1]) (simp_all add: f)
  have tl0: "execute_program_loop ?t0 = Inr (?t1, True)"
    using execute_program_loop_continue [OF _ _ tb0] tl1 by (simp add: f)
  have thumb: "bindE (load_program ?i [(0xE7FF, ''Thumb'')])
     (\<lambda>s. bindE (execute_program s)
        (\<lambda>r. Inr (instruction_count (final r), registers (final r) ! 15,
                   pc_beyond_bounds r, limit_reached r)))
   = Inr (1, 2, True, False)"
    by (simp add: tl execute_program_def tl0 f)
  from arm thumb show ?thesis by simp
qed


text \<open>The ceiling itself works: a loop of two instructions (\<open>MOV R0, R0\<close> at 0 and a
  branch back to 0 at 4), in which every branch changes the PC, runs for exactly 1000
  instructions and ends with the "limit reached" signal and without the bounds signal.\<close>

lemma execute_program_loop_runs_to_limit:
  assumes step: "\<And>s. I s \<Longrightarrow> instruction_count s < max_instructions s
             \<Longrightarrow> \<exists>s'. execute_program_body s = Inr (Continue s') \<and> I s'"
    and run: "\<And>s. I s \<Longrightarrow> running s"
    and "I s" and "instruction_count s \<le> max_instructions s"
  shows "\<exists>s'. execute_program_loop s = Inr (s', False)
            \<and> instruction_count s' = max_instructions s \<and> I s'"
  using assms(3,4)
proof (induction s rule: execute_program_loop.induct)
  case (1 s)
  show ?case
  proof (cases "instruction_count s < max_instructions s")
    case False
    with "1.prems" have "instruction_count s = max_instructions s" by simp
    moreover from False have "execute_program_loop s = Inr (s, False)"
      by (intro execute_program_loop_stop) simp
    ultimately show ?thesis using "1.prems" by simp
  next
    case True
    from step [OF "1.prems"(1) True] obtain s1
      where b: "execute_program_body s = Inr (Continue s1)" and i: "I s1" by blast
    have r: "running s" using "1.prems"(1) by (rule run)
    note c = execute_program_body_Continue [OF b]
    have le: "instruction_count s1 \<le> max_instructions s1" using c True by simp
    from "1.IH" [OF _ b refl i le] r True
    obtain s' where "execute_program_loop s1 = Inr (s', False)"
      and "instruction_count s' = max_instructions s1" and "I s'"
      by blast
    then show ?thesis
      using execute_program_loop_continue [OF r True b] c by simp
  qed
qed

lemma two_instruction_loop_reaches_limit:
  "bindE (load_program (EnhancedARMExecutor_init None)
            [(0xE1A00000, ''ARM''), (0xEAFFFFFD, ''ARM'')])
     (\<lambda>s. bindE (execute_program s)
        (\<lambda>r. Inr (instruction_count (final r), pc_beyond_bounds r, limit_reached r)))
   = Inr (1000, False, True)"
proof -
  let ?i = "EnhancedARMExecutor_init None"
  let ?P = "[(0xE1A00000, ''ARM''), (0xEAFFFFFD, ''ARM'')] :: (int \<times> string) list"
  let ?s0 = "?i\<lparr>program := ?P, arm_count := Some 2, thumb_base := Some 8\<rparr>"
  define st where "st pc n = ?s0\<lparr>registers := [0, 0, 0, 0, 0, 0, 0, 0, 0, 0, 0, 0, 0, 0x1000, 0, pc],
                  instruction_count := n\<rparr>" for pc n
  define I where "I s \<longleftrightarrow> (\<exists>n. s = st 0 n \<or> s = st 4 n)" for s
  have f: "mode ?i = ''ARM''" "running ?i" "instruction_count ?i = 0"
    "max_instructions ?i = 1000" "cache ?i = None"
    by (simp_all add: EnhancedARMExecutor_init_def)
  have l: "load_program ?i ?P = Inr ?s0"
    by (simp add: load_program_def)
  have s0: "?s0 = st 0 0"
    by (simp add: st_def EnhancedARMExecutor_init_def SP_def numeral_eq_Suc)
  have d1: "decode_instruction 0xE1A00000 a = (''MOV'', [(''rd'', 0), (''rm'', 0)])" for a
    by (simp add: decode_instruction_def)
  have d2: "fst (decode_instruction 0xEAFFFFFD a) = ''B''" for a
    by (simp add: decode_instruction_def)
  have len: "length (registers (st pc n)) = 16" for pc n
    by (simp add: st_def)
  have e1: "execute_arm_instruction (st 0 n) 0xE1A00000 = Inr (st 0 n)" for n
    by (simp add: execute_arm_instruction_def enhanced_decode_instruction_def PC_def
          reg_get_def reg_set_def py_index_def py_store_def d1 execute_arm_mov_def op_get_def
          st_def)
  have e2: "execute_arm_instruction (st 4 n) 0xEAFFFFFD = Inr (st 0 n)" for n
    using execute_arm_instruction_B [OF len d2, of 4 n]
    by (simp add: st_def sign_extend_def)
  have fld: "registers (st pc n) = [0, 0, 0, 0, 0, 0, 0, 0, 0, 0, 0, 0, 0, 0x1000, 0, pc]"
    "mode (st pc n) = ''ARM''" "program (st pc n) = ?P" "instruction_count (st pc n) = n"
    for pc n
    by (simp_all add: st_def f)
  have upd: "(st pc n)\<lparr>registers := [0, 0, 0, 0, 0, 0, 0, 0, 0, 0, 0, 0, 0, 0x1000, 0, pc']\<rparr>
      = st pc' n" "(st pc n)\<lparr>instruction_count := m\<rparr> = st pc m" for pc pc' n m
    by (simp_all add: st_def)
  have b1: "execute_program_body (st 0 n) = Inr (Continue (st 4 (n + 1)))" for n
    unfolding execute_program_body_def instr_index_of_def execute_and_advance_def
    by (simp add: PC_def reg_get_def reg_set_def py_index_def py_store_def fld e1 upd)
  have b2: "execute_program_body (st 4 n) = Inr (Continue (st 0 (n + 1)))" for n
    unfolding execute_program_body_def instr_index_of_def execute_and_advance_def
    by (simp add: PC_def reg_get_def reg_set_def py_index_def py_store_def fld e2 upd)
  have step: "\<exists>s'. execute_program_body s = Inr (Continue s') \<and> I s'" if "I s" for s
    using that b1 b2 unfolding I_def by blast
  have run: "running s" if "I s" for s
    using that unfolding I_def by (auto simp: st_def f)
  have mx: "max_instructions (st 0 0) = 1000" "instruction_count (st 0 0) = 0"
    by (simp_all add: st_def f)
  have "I (st 0 0)" unfolding I_def by blast
  from execute_program_loop_runs_to_limit [of I, OF step run this] mx
  obtain s' where "execute_program_loop (st 0 0) = Inr (s', False)"
    and "instruction_count s' = 1000" and "I s'"
    by auto
  moreover from \<open>I s'\<close> have "max_instructions s' = 1000"
    unfolding I_def by (auto simp: st_def f)
  ultimately show ?thesis
    by (simp add: l s0 execute_program_def)
qed

section \<open>Register range\<close>

text \<open>
  Claim C4 at a concrete input. From the initial state, the ARM instructions
  \<open>MVN R0, #3\<close> (0xE3E00003) and \<open>BX R0\<close> (0xE12FFF10) leave every register in
  \<open>[0, 2^32)\<close> with PC = 0xFFFFFFFC; the handler of \<open>BL\<close> (0xEB000000) then stores
  PC + 4 = 2^32 in LR, outside the range. The same handler masks the new PC.
\<close>

theorem branch_link_leaves_register_range:
  "bindE (execute_arm_instruction (EnhancedARMExecutor_init None) 0xE3E00003)
     (\<lambda>s1. bindE (execute_arm_instruction s1 0xE12FFF10)
        (\<lambda>s2. bindE (execute_arm_instruction s2 0xEB000000)
           (\<lambda>s3. Inr (registers s2, registers s3))))
   = Inr ([0xFFFFFFFC, 0, 0, 0, 0, 0, 0, 0, 0, 0, 0, 0, 0, 0x1000, 0, 0xFFFFFFFC],
          [0xFFFFFFFC, 0, 0, 0, 0, 0, 0, 0, 0, 0, 0, 0, 0, 0x1000, 0x100000000, 4])"
proof -
  let ?s0 = "EnhancedARMExecutor_init None"
  let ?s1 = "?s0\<lparr>registers := [0xFFFFFFFC, 0, 0, 0, 0, 0, 0, 0, 0, 0, 0, 0, 0, 0x1000, 0, 0]\<rparr>"
  let ?s2 = "?s0\<lparr>registers := [0xFFFFFFFC, 0, 0, 0, 0, 0, 0, 0, 0, 0, 0, 0, 0, 0x1000, 0,
                                 0xFFFFFFFC],
                  mode := ''ARM'', decoder_mode := ''ARM''\<rparr>"
  have d1: "decode_instruction 0xE3E00003 a = (''MVN_IMM'', [(''rd'', 0), (''immediate'', 3)])"
    and d2: "decode_instruction 0xE12FFF10 a = (''BX'', [(''rm'', 0)])"
    and d3: "fst (decode_instruction 0xEB000000 a) = ''BL''" for a
    by (simp_all add: decode_instruction_def)
  have e1: "execute_arm_instruction ?s0 0xE3E00003 = Inr ?s1"
    by (simp add: execute_arm_instruction_def enhanced_decode_instruction_def PC_def
          reg_get_def reg_set_def py_index_def py_store_def init_registers d1
          execute_arm_mvn_imm_def op_get_def and_FFFFFFFF)
  have m: "(0xFFFFFFFC :: int) AND 1 = 0" "(0xFFFFFFFC :: int) AND 0xFFFFFFFC = 0xFFFFFFFC"
    by (simp_all add: and_mask_numeral)
  have e2: "execute_arm_instruction ?s1 0xE12FFF10 = Inr ?s2"
    by (simp add: execute_arm_instruction_def enhanced_decode_instruction_def PC_def
          reg_get_def reg_set_def py_index_def py_store_def d2
          execute_arm_bx_def op_get_def switch_mode_def m)
  have len: "length (registers ?s2) = 16" by simp
  have e3: "execute_arm_instruction ?s2 0xEB000000
      = Inr (?s2\<lparr>registers := [0xFFFFFFFC, 0, 0, 0, 0, 0, 0, 0, 0, 0, 0, 0, 0, 0x1000,
                                 0x100000000, 4]\<rparr>)"
    using execute_arm_instruction_BL [OF len d3]
    by (simp add: sign_extend_def)
  show ?thesis
    by (simp add: e1 e2 e3)
qed

end
